theory Spec2Isabelle
  imports Complex_Main "HOL-Library.Log_Nat"
begin

section \<open>The wind-data route of windLA: a shallow embedding\<close>

text \<open>
  The development embeds the handler \<^verbatim>\<open>GET\<close> of the wind-data route (the file with the
  \<^verbatim>\<open>WindData\<close> interface): the probe of the tabular NOAA file, the fallback to the
  human-readable file, the tabular parser and the human-readable parser.

  Conventions of the model.
  \<^item> A JavaScript string is a list of characters. A \<^typ>\<open>char\<close> stands for the code unit
    of the same number, so the model covers the texts whose code units are below 256
    (Latin-1). The degree sign U+00B0 is the character number 176, the no-break space
    U+00A0 is the character number 160.
  \<^item> A JavaScript number is a value of \<open>jsnum\<close>: \<open>NaN\<close>, the two infinities, or a finite
    value, held as a rational. The arithmetic is that of IEEE 754 doubles: every product,
    quotient and sum, every decimal literal and every result of \<^verbatim>\<open>parseFloat\<close> is rounded
    to the nearest double, a tie going to the even mantissa (\<open>toDouble\<close>). Negative zero is
    the same value as zero. (\<^verbatim>\<open>parseInt\<close> gives the integer written, see there.)
  \<^item> The two \<^verbatim>\<open>fetch\<close> calls are the two arguments of \<open>GET\<close>: each is a rejected promise
    or a response with a status and a body. A response whose text cannot be read counts as
    a rejection. The second \<^verbatim>\<open>fetch\<close> is made only when the probe of the first fails; the
    model reads its argument only then.
  \<^item> Every \<^verbatim>\<open>throw\<close> of the handler is a constructor of \<open>error\<close>; the handler's
    \<^verbatim>\<open>catch\<close> turns each of them into the failure response that carries its message.
\<close>

subsection \<open>Characters and strings\<close>

definition nl :: char where
  "nl = CHR 0x0A"

definition degreeSign :: char where
  "degreeSign = CHR 0xB0"

text \<open>The class \<^verbatim>\<open>\d\<close>.\<close>

definition isDigit :: "char \<Rightarrow> bool" where
  "isDigit c = (c \<in> set ''0123456789'')"

text \<open>
  The class \<^verbatim>\<open>\s\<close>, which is also what \<^verbatim>\<open>trim\<close> removes: tab, line feed, vertical tab,
  form feed, carriage return, space and no-break space (the members below 256).
\<close>

definition isSpace :: "char \<Rightarrow> bool" where
  "isSpace c = (c \<in> {CHR 0x09, CHR 0x0A, CHR 0x0B, CHR 0x0C, CHR 0x0D, CHR 0x20, CHR 0xA0})"

text \<open>The class \<^verbatim>\<open>[\d.]\<close>.\<close>

definition isDigitOrDot :: "char \<Rightarrow> bool" where
  "isDigitOrDot c = (isDigit c \<or> c = CHR ''.'')"

definition isDegree :: "char \<Rightarrow> bool" where
  "isDegree c = (c = degreeSign)"

text \<open>\<^verbatim>\<open>s.trim()\<close>\<close>

definition trim :: "string \<Rightarrow> string" where
  "trim s = rev (dropWhile isSpace (rev (dropWhile isSpace s)))"

text \<open>\<^verbatim>\<open>s.split(c)\<close> for a separator of one character; the result is never empty.\<close>

fun splitChar :: "char \<Rightarrow> string \<Rightarrow> string list" where
  "splitChar sep [] = [ [] ]"
| "splitChar sep (c # cs) =
     (if c = sep then [] # splitChar sep cs
      else (case splitChar sep cs of
              [] \<Rightarrow> [ [c] ]
            | w # ws \<Rightarrow> (c # w) # ws))"

text \<open>
  \<^verbatim>\<open>s.split(/\s+/)\<close>: every maximal run of white space separates two pieces, so white
  space at the start of \<open>s\<close> gives an empty first piece and white space at its end an
  empty last piece; the empty string gives one empty piece.
\<close>

function splitWs :: "string \<Rightarrow> string list" where
  "splitWs [] = [ [] ]"
| "splitWs (c # cs) =
     (if isSpace c then [] # splitWs (dropWhile isSpace cs)
      else (case splitWs cs of
              [] \<Rightarrow> [ [c] ]
            | w # ws \<Rightarrow> (c # w) # ws))"
  by pat_completeness auto
termination
  by (relation "measure length") (auto simp: length_dropWhile_le le_imp_less_Suc)

definition startsWith :: "string \<Rightarrow> string \<Rightarrow> bool" where
  "startsWith s p = (take (length p) s = p)"

text \<open>\<^verbatim>\<open>s.includes(sub)\<close>\<close>

fun includesStr :: "string \<Rightarrow> string \<Rightarrow> bool" where
  "includesStr [] sub = (sub = [])"
| "includesStr (c # cs) sub = (startsWith (c # cs) sub \<or> includesStr cs sub)"

text \<open>\<^verbatim>\<open>s.padStart(n, c)\<close> for a pad string of one character.\<close>

definition padStart :: "nat \<Rightarrow> char \<Rightarrow> string \<Rightarrow> string" where
  "padStart n c s = replicate (n - length s) c @ s"

text \<open>\<^verbatim>\<open>parts[i]\<close> inside a template or as an argument of \<^verbatim>\<open>parseFloat\<close>: an index
  out of range reads \<^verbatim>\<open>undefined\<close>, which both contexts turn into the string
  \<^verbatim>\<open>"undefined"\<close>.\<close>

definition part :: "string list \<Rightarrow> nat \<Rightarrow> string" where
  "part parts i = (if i < length parts then parts ! i else ''undefined'')"

subsection \<open>Numbers\<close>

datatype jsnum = NaN | NegInf | Num rat | PosInf

text \<open>The truth value of a number: \<^verbatim>\<open>NaN\<close> and zero are falsy.\<close>

definition truthy :: "jsnum \<Rightarrow> bool" where
  "truthy x = (x \<noteq> NaN \<and> x \<noteq> Num 0)"

text \<open>\<^verbatim>\<open>x || d\<close>\<close>

definition orElse :: "jsnum \<Rightarrow> jsnum \<Rightarrow> jsnum" where
  "orElse x d = (if truthy x then x else d)"

text \<open>
  Rounding to the nearest double. \<open>floorLog2 q\<close> is the integer \<open>k\<close> with
  \<open>2\<^sup>k \<le> q < 2\<^sup>k\<^sup>+\<^sup>1\<close>, for a positive \<open>q\<close>: it is the difference of the bit lengths of
  numerator and denominator, or one less. A double has a mantissa of 53 bits and an
  exponent of at least \<open>-1074\<close> for its last bit; \<open>roundPos\<close> rounds a positive rational to
  the nearest multiple of that last bit, a tie going to the even multiple. The largest
  double is \<open>(2\<^sup>5\<^sup>3 - 1) \<times> 2\<^sup>9\<^sup>7\<^sup>1\<close>: a result beyond it is an infinity.
\<close>

definition pow2 :: "int \<Rightarrow> rat" where
  "pow2 e = (if 0 \<le> e then of_int (2 ^ nat e) else 1 / of_int (2 ^ nat (- e)))"

definition floorLog2 :: "rat \<Rightarrow> int" where
  "floorLog2 q =
     (let (a, b) = quotient_of q;
          k = bitlen a - bitlen b
      in if pow2 k \<le> q then k else k - 1)"

definition roundEven :: "rat \<Rightarrow> int" where
  "roundEven x =
     (let f = \<lfloor>x\<rfloor>;
          d = x - of_int f
      in if d < 1 / 2 then f
         else if 1 / 2 < d then f + 1
         else if even f then f else f + 1)"

definition lastBit :: "rat \<Rightarrow> int" where
  "lastBit q = max (floorLog2 q - 52) (- 1074)"

definition mantissa :: "rat \<Rightarrow> int" where
  "mantissa q = roundEven (q / pow2 (lastBit q))"

definition roundPos :: "rat \<Rightarrow> rat" where
  "roundPos q = of_int (mantissa q) * pow2 (lastBit q)"

definition overflows :: "rat \<Rightarrow> bool" where
  "overflows q = (971 < lastBit q \<or> (lastBit q = 971 \<and> 2 ^ 53 \<le> mantissa q))"

definition toDouble :: "rat \<Rightarrow> jsnum" where
  "toDouble q =
     (if q = 0 then Num 0
      else if overflows \<bar>q\<bar> then (if 0 < q then PosInf else NegInf)
      else Num (if 0 < q then roundPos \<bar>q\<bar> else - roundPos \<bar>q\<bar>))"

text \<open>A decimal literal of the source.\<close>

definition lit :: "rat \<Rightarrow> jsnum" where
  "lit c = toDouble c"

definition isFinite :: "jsnum \<Rightarrow> bool" where
  "isFinite x = (case x of Num q \<Rightarrow> True | _ \<Rightarrow> False)"

definition valueOf :: "jsnum \<Rightarrow> rat" where
  "valueOf x = (case x of Num q \<Rightarrow> q | _ \<Rightarrow> 0)"

definition signOf :: "jsnum \<Rightarrow> int" where
  "signOf x =
     (case x of
        NaN \<Rightarrow> 0
      | NegInf \<Rightarrow> - 1
      | Num q \<Rightarrow> (if 0 < q then 1 else if q < 0 then - 1 else 0)
      | PosInf \<Rightarrow> 1)"

text \<open>
  \<^verbatim>\<open>x * y\<close>, \<^verbatim>\<open>x / y\<close> and \<^verbatim>\<open>x + y\<close>. A zero has no sign in this model, so a division
  by zero takes the zero as positive.
\<close>

definition numTimes :: "jsnum \<Rightarrow> jsnum \<Rightarrow> jsnum" where
  "numTimes x y =
     (if x = NaN \<or> y = NaN then NaN
      else if isFinite x \<and> isFinite y then toDouble (valueOf x * valueOf y)
      else if signOf x * signOf y = 0 then NaN
      else if 0 < signOf x * signOf y then PosInf else NegInf)"

definition numOver :: "jsnum \<Rightarrow> jsnum \<Rightarrow> jsnum" where
  "numOver x y =
     (if x = NaN \<or> y = NaN then NaN
      else if isFinite x \<and> isFinite y then
        (if valueOf y = 0 then
           (if valueOf x = 0 then NaN else if 0 < valueOf x then PosInf else NegInf)
         else toDouble (valueOf x / valueOf y))
      else if isFinite x then Num 0
      else if isFinite y then
        (if 0 \<le> signOf y then x else if x = PosInf then NegInf else PosInf)
      else NaN)"

definition numPlus :: "jsnum \<Rightarrow> jsnum \<Rightarrow> jsnum" where
  "numPlus x y =
     (if x = NaN \<or> y = NaN then NaN
      else if isFinite x \<and> isFinite y then toDouble (valueOf x + valueOf y)
      else if isFinite x then y
      else if isFinite y then x
      else if x = y then x else NaN)"

text \<open>\<^verbatim>\<open>Math.round(x)\<close>: the nearest integer, a tie going up. The result is exact: an
  integer next to a double is a double.\<close>

definition mathRound :: "jsnum \<Rightarrow> jsnum" where
  "mathRound x = (case x of Num q \<Rightarrow> Num (of_int \<lfloor>q + 1 / 2\<rfloor>) | _ \<Rightarrow> x)"

text \<open>\<^verbatim>\<open>x >= c\<close> and \<^verbatim>\<open>x === c\<close> for a finite constant \<open>c\<close>.\<close>

definition geq :: "jsnum \<Rightarrow> rat \<Rightarrow> bool" where
  "geq x c = (case x of NaN \<Rightarrow> False | NegInf \<Rightarrow> False | Num q \<Rightarrow> c \<le> q | PosInf \<Rightarrow> True)"

definition strictEq :: "jsnum \<Rightarrow> rat \<Rightarrow> bool" where
  "strictEq x c = (x = Num c)"

subsection \<open>\<^verbatim>\<open>parseFloat\<close> and \<^verbatim>\<open>parseInt\<close>\<close>

definition digitValue :: "char \<Rightarrow> nat" where
  "digitValue c = of_char c - 48"

definition digitsValue :: "string \<Rightarrow> int" where
  "digitsValue ds = foldl (\<lambda>a c. 10 * a + int (digitValue c)) 0 ds"

definition pow10 :: "int \<Rightarrow> rat" where
  "pow10 e = (if 0 \<le> e then 10 ^ nat e else 1 / 10 ^ nat (- e))"

text \<open>
  The exponent part that follows the mantissa: \<^verbatim>\<open>e\<close> or \<^verbatim>\<open>E\<close>, an optional sign and at
  least one digit. An incomplete exponent part is not part of the literal.
\<close>

definition exponentPart :: "string \<Rightarrow> int" where
  "exponentPart r =
     (case r of
        [] \<Rightarrow> 0
      | e # r1 \<Rightarrow>
          if e = CHR ''e'' \<or> e = CHR ''E'' then
            (let neg = startsWith r1 ''-'';
                 r2 = (if startsWith r1 ''-'' \<or> startsWith r1 ''+'' then tl r1 else r1);
                 ds = takeWhile isDigit r2
             in if ds = [] then 0
                else if neg then - digitsValue ds else digitsValue ds)
          else 0)"

text \<open>
  The value of the longest prefix that is an unsigned decimal literal (digits, an optional
  fraction, an optional exponent; or a fraction that starts with the point), if there is one.
\<close>

definition unsignedDecimal :: "string \<Rightarrow> rat option" where
  "unsignedDecimal u =
     (let ip = takeWhile isDigit u;
          r1 = dropWhile isDigit u;
          hasPoint = startsWith r1 ''.'';
          fp = (if hasPoint then takeWhile isDigit (tl r1) else []);
          r2 = (if hasPoint then dropWhile isDigit (tl r1) else r1)
      in if ip = [] \<and> fp = [] then None
         else Some ((of_int (digitsValue ip) + of_int (digitsValue fp) / 10 ^ length fp)
                    * pow10 (exponentPart r2)))"

definition parseFloat :: "string \<Rightarrow> jsnum" where
  "parseFloat s =
     (let t = dropWhile isSpace s;
          neg = startsWith t ''-'';
          u = (if startsWith t ''-'' \<or> startsWith t ''+'' then tl t else t)
      in if startsWith u ''Infinity'' then (if neg then NegInf else PosInf)
         else (case unsignedDecimal u of
                 None \<Rightarrow> NaN
               | Some q \<Rightarrow> toDouble (if neg then - q else q)))"

text \<open>
  \<^verbatim>\<open>parseInt(s)\<close> without a radix: white space, a sign, the prefix \<^verbatim>\<open>0x\<close> or \<^verbatim>\<open>0X\<close> for
  radix 16, then the longest run of digits of the radix. The result is the integer that
  the digits write: this is the value JavaScript returns for every integer of magnitude up
  to \<open>2\<^sup>5\<^sup>3\<close>, and a longer run of digits, which JavaScript rounds to a double, is kept
  exact here.
\<close>

definition radixDigit :: "char \<Rightarrow> nat" where
  "radixDigit c =
     (if isDigit c then of_char c - 48
      else if c \<in> set ''abcdef'' then of_char c - 87
      else if c \<in> set ''ABCDEF'' then of_char c - 55
      else 36)"

definition parseInt :: "string \<Rightarrow> jsnum" where
  "parseInt s =
     (let t = dropWhile isSpace s;
          neg = startsWith t ''-'';
          u = (if startsWith t ''-'' \<or> startsWith t ''+'' then tl t else t);
          hex = (startsWith u ''0x'' \<or> startsWith u ''0X'');
          radix = (if hex then 16 else 10);
          v = (if hex then drop 2 u else u);
          ds = takeWhile (\<lambda>c. radixDigit c < radix) v;
          n = foldl (\<lambda>a c. int radix * a + int (radixDigit c)) 0 ds
      in if ds = [] then NaN
         else Num (if neg then - of_int n else of_int n))"

subsection \<open>Regular expressions\<close>

text \<open>
  The four regular expressions of the handler are sequences of literals, of greedy
  quantifiers over one character class, and of groups around such a quantifier. \<open>Rep p lo hi\<close>
  is the class \<open>p\<close> repeated at least \<open>lo\<close> and at most \<open>hi\<close> times (\<open>None\<close>: no upper
  bound). The matcher backtracks as the JavaScript one does: \<open>rxRun\<close> lists the ways one
  item can match at the start of the input, the longest repetition first, each with the
  rest of the input and the groups captured so far; \<open>rxSeq\<close> tries them in that order.
\<close>

datatype rx = Lit string | Rep "char \<Rightarrow> bool" nat "nat option" | Grp rx

definition repMax :: "nat option \<Rightarrow> nat \<Rightarrow> nat" where
  "repMax hi n = (case hi of None \<Rightarrow> n | Some h \<Rightarrow> min h n)"

fun rxRun :: "rx \<Rightarrow> string \<times> string list \<Rightarrow> (string \<times> string list) list" where
  "rxRun (Lit l) (s, caps) = (if startsWith s l then [(drop (length l) s, caps)] else [])"
| "rxRun (Rep p lo hi) (s, caps) =
     map (\<lambda>k. (drop k s, caps)) (rev [lo ..< Suc (repMax hi (length (takeWhile p s)))])"
| "rxRun (Grp r) (s, caps) =
     map (\<lambda>(s', caps'). (s', caps' @ [take (length s - length s') s])) (rxRun r (s, caps))"

fun rxSeq :: "rx list \<Rightarrow> string \<times> string list \<Rightarrow> (string \<times> string list) list" where
  "rxSeq [] st = [st]"
| "rxSeq (r # rs) st = concat (map (rxSeq rs) (rxRun r st))"

text \<open>
  \<^verbatim>\<open>s.match(re)\<close> for a regular expression without flags: the first match at the leftmost
  position where there is one; the result is the list of its groups, \<^verbatim>\<open>null\<close> is \<open>None\<close>.
\<close>

fun rxExec :: "rx list \<Rightarrow> string \<Rightarrow> string list option" where
  "rxExec re [] = (case rxSeq re ([], []) of [] \<Rightarrow> None | st # _ \<Rightarrow> Some (snd st))"
| "rxExec re (c # cs) =
     (case rxSeq re (c # cs, []) of [] \<Rightarrow> rxExec re cs | st # _ \<Rightarrow> Some (snd st))"

text \<open>\<^verbatim>\<open>/(\d{4})\s+GMT\s+(\d{1,2})\/(\d{1,2})\/(\d{2})/\<close>\<close>

definition gmtRx :: "rx list" where
  "gmtRx =
     [Grp (Rep isDigit 4 (Some 4)), Rep isSpace 1 None, Lit ''GMT'', Rep isSpace 1 None,
      Grp (Rep isDigit 1 (Some 2)), Lit ''/'', Grp (Rep isDigit 1 (Some 2)), Lit ''/'',
      Grp (Rep isDigit 2 (Some 2))]"

text \<open>\<^verbatim>\<open>/\((\d+)\<close>\<open>\<degree>\<close>\<^verbatim>\<open>?\)/\<close>\<close>

definition dirRx :: "rx list" where
  "dirRx = [Lit ''('', Grp (Rep isDigit 1 None), Rep isDegree 0 (Some 1), Lit '')'']"

text \<open>\<^verbatim>\<open>/,\s*([\d.]+)\s*kt/\<close>\<close>

definition speedRx :: "rx list" where
  "speedRx =
     [Lit '','', Rep isSpace 0 None, Grp (Rep isDigitOrDot 1 None), Rep isSpace 0 None,
      Lit ''kt'']"

text \<open>\<^verbatim>\<open>/Gust:\s*([\d.]+)\s*kt/\<close>\<close>

definition gustRx :: "rx list" where
  "gustRx =
     [Lit ''Gust:'', Rep isSpace 0 None, Grp (Rep isDigitOrDot 1 None), Rep isSpace 0 None,
      Lit ''kt'']"

subsection \<open>The handler\<close>

record WindData =
  datetime :: string
  windDirection :: jsnum
  windSpeed :: jsnum
  gustSpeed :: jsnum
  pressure :: jsnum
  airTemp :: jsnum
  waterTemp :: jsnum

text \<open>
  The errors thrown inside the handler, by their messages:
  \<^item> \<open>FetchRejected\<close>: the second \<^verbatim>\<open>fetch\<close> rejected (the message is the network layer's);
  \<^item> \<open>HttpError n\<close>: \<^verbatim>\<open>HTTP error! status: n\<close>;
  \<^item> \<open>NoData\<close>: \<^verbatim>\<open>Failed to read data from any source\<close>;
  \<^item> \<open>NotEnoughLines n\<close>: \<^verbatim>\<open>Not enough data lines. Expected at least 2, got n\<close>;
  \<^item> \<open>InvalidTabular n\<close>: \<^verbatim>\<open>Invalid tabular data format. Expected at least 13 columns, got n\<close>;
  \<^item> \<open>NoDateTime\<close>: \<^verbatim>\<open>Could not parse date/time from NOAA data\<close>.

  The throw of \<^verbatim>\<open>Failed to fetch data from any source\<close> is guarded by \<^verbatim>\<open>!response\<close>,
  and \<^verbatim>\<open>response\<close> is assigned on both ways to that test, so it has no constructor.
\<close>

datatype error =
  FetchRejected | HttpError nat | NoData | NotEnoughLines nat | InvalidTabular nat | NoDateTime

text \<open>What a \<^verbatim>\<open>fetch\<close> gives: a rejection, or a response with its status and its text.\<close>

datatype response = Rejected | Response nat string

text \<open>\<^verbatim>\<open>response.ok\<close>\<close>

definition ok :: "nat \<Rightarrow> bool" where
  "ok status = (200 \<le> status \<and> status \<le> 299)"

text \<open>\<^verbatim>\<open>Math.round(x * 1.944 * 10) / 10\<close>\<close>

definition toKnots :: "jsnum \<Rightarrow> jsnum" where
  "toKnots x =
     numOver (mathRound (numTimes (numTimes x (lit (1944 / 1000))) (lit 10))) (lit 10)"

text \<open>\<^verbatim>\<open>Math.round((x * 9/5 + 32) * 10) / 10\<close>\<close>

definition toFahrenheit :: "jsnum \<Rightarrow> jsnum" where
  "toFahrenheit x =
     numOver
       (mathRound
          (numTimes (numPlus (numOver (numTimes x (lit 9)) (lit 5)) (lit 32)) (lit 10)))
       (lit 10)"

text \<open>
  The probe of the first \<^verbatim>\<open>fetch\<close>: the text of an \<^verbatim>\<open>ok\<close> response is taken as tabular
  when it has more than one line and its last line has more than ten columns. The result
  is \<^verbatim>\<open>rawData\<close> when \<^verbatim>\<open>isTabularFormat\<close> is set, \<open>None\<close> when it is not. A rejection is
  caught by the inner \<^verbatim>\<open>try\<close>.
\<close>

definition probeTabular :: "response \<Rightarrow> string option" where
  "probeTabular tabularResponse =
     (case tabularResponse of
        Rejected \<Rightarrow> None
      | Response status testData \<Rightarrow>
          if ok status then
            (let lines = splitChar nl (trim testData)
             in if length lines > 1 \<and> length (splitWs (last lines)) > 10
                then Some testData else None)
          else None)"

text \<open>The six tests on the finished record, in the order of the source.\<close>

definition handleMissing :: "WindData \<Rightarrow> WindData" where
  "handleMissing w0 =
     (let w1 = (if strictEq (windDirection w0) 99 \<or> geq (windDirection w0) 999
                then w0\<lparr>windDirection := Num 0\<rparr> else w0);
          w2 = (if geq (windSpeed w1) 99 then w1\<lparr>windSpeed := Num 0\<rparr> else w1);
          w3 = (if geq (gustSpeed w2) 99 then w2\<lparr>gustSpeed := Num 0\<rparr> else w2);
          w4 = (if geq (pressure w3) 9999 then w3\<lparr>pressure := Num 0\<rparr> else w3);
          w5 = (if geq (airTemp w4) 999 then w4\<lparr>airTemp := Num 0\<rparr> else w4)
      in if geq (waterTemp w5) 999 then w5\<lparr>waterTemp := Num 0\<rparr> else w5)"

text \<open>The branch \<^verbatim>\<open>if (isTabularFormat)\<close>.\<close>

definition parseTabular :: "string list \<Rightarrow> error + WindData" where
  "parseTabular lines =
     (let dataLine = last lines;
          parts = splitWs dataLine
      in if length parts < 13 then Inl (InvalidTabular (length parts))
         else Inr (handleMissing
           \<lparr>datetime = part parts 0 @ ''-'' @ padStart 2 (CHR ''0'') (part parts 1) @ ''-''
               @ padStart 2 (CHR ''0'') (part parts 2) @ ''T''
               @ padStart 2 (CHR ''0'') (part parts 3) @ '':''
               @ padStart 2 (CHR ''0'') (part parts 4) @ '':00Z'',
            windDirection = orElse (parseFloat (part parts 5)) (Num 0),
            windSpeed = orElse (toKnots (parseFloat (part parts 6))) (Num 0),
            gustSpeed = orElse (toKnots (parseFloat (part parts 7))) (Num 0),
            pressure = orElse (parseFloat (part parts 12)) (Num 0),
            airTemp = (if truthy (parseFloat (part parts 13))
                       then toFahrenheit (parseFloat (part parts 13)) else Num 0),
            waterTemp = (if truthy (parseFloat (part parts 14))
                         then toFahrenheit (parseFloat (part parts 14)) else Num 0)\<rparr>))"

text \<open>The \<^verbatim>\<open>else\<close> branch, for the human-readable text; its four local variables first.\<close>

definition extractDateTime :: "string list \<Rightarrow> string" where
  "extractDateTime lines =
     (case List.find (\<lambda>line. includesStr line ''GMT'') lines of
        None \<Rightarrow> []
      | Some gmtLine \<Rightarrow>
          (case rxExec gmtRx gmtLine of
             Some (time # month # day # year # _) \<Rightarrow>
               (let hours = take 2 time;
                    minutes = take 2 (drop 2 time);
                    fullYear = ''20'' @ year
                in fullYear @ ''-'' @ padStart 2 (CHR ''0'') month @ ''-''
                   @ padStart 2 (CHR ''0'') day @ ''T'' @ hours @ '':'' @ minutes @ '':00Z'')
           | _ \<Rightarrow> []))"

definition extractWindDirection :: "string list \<Rightarrow> jsnum" where
  "extractWindDirection lines =
     (case List.find (\<lambda>line. includesStr line ''Wind:'') lines of
        None \<Rightarrow> Num 0
      | Some windLine \<Rightarrow>
          (case rxExec dirRx windLine of
             Some (d # _) \<Rightarrow> parseInt d
           | _ \<Rightarrow> Num 0))"

definition extractWindSpeed :: "string list \<Rightarrow> jsnum" where
  "extractWindSpeed lines =
     (case List.find (\<lambda>line. includesStr line ''Wind:'') lines of
        None \<Rightarrow> Num 0
      | Some windLine \<Rightarrow>
          (case rxExec speedRx windLine of
             Some (v # _) \<Rightarrow> parseFloat v
           | _ \<Rightarrow> Num 0))"

definition extractGustSpeed :: "string list \<Rightarrow> jsnum" where
  "extractGustSpeed lines =
     (case List.find (\<lambda>line. includesStr line ''Gust:'') lines of
        None \<Rightarrow> Num 0
      | Some gustLine \<Rightarrow>
          (case rxExec gustRx gustLine of
             Some (v # _) \<Rightarrow> parseFloat v
           | _ \<Rightarrow> Num 0))"

definition parseReadable :: "string list \<Rightarrow> error + WindData" where
  "parseReadable lines =
     (let windDirection = extractWindDirection lines;
          windSpeed = extractWindSpeed lines;
          gustSpeed = extractGustSpeed lines;
          dateTime = extractDateTime lines
      in if dateTime = [] then Inl NoDateTime
         else Inr \<lparr>datetime = dateTime, windDirection = windDirection, windSpeed = windSpeed,
                   gustSpeed = gustSpeed, pressure = Num 0, airTemp = Num 0,
                   waterTemp = Num 0\<rparr>)"

text \<open>The handler from the test of \<^verbatim>\<open>rawData\<close> on, common to the two formats.\<close>

definition parseRaw :: "bool \<Rightarrow> string \<Rightarrow> error + WindData" where
  "parseRaw isTabularFormat rawData =
     (if rawData = [] then Inl NoData
      else (let lines = splitChar nl (trim rawData)
            in if length lines < 2 then Inl (NotEnoughLines (length lines))
               else if isTabularFormat then parseTabular lines
               else parseReadable lines))"

text \<open>The second \<^verbatim>\<open>fetch\<close> and what follows it, taken when the probe has not set
  \<^verbatim>\<open>isTabularFormat\<close>.\<close>

definition readablePath :: "response \<Rightarrow> error + WindData" where
  "readablePath readableResponse =
     (case readableResponse of
        Rejected \<Rightarrow> Inl FetchRejected
      | Response status body \<Rightarrow>
          if \<not> ok status then Inl (HttpError status) else parseRaw False body)"

text \<open>
  The handler: \<open>Inr\<close> is the \<^verbatim>\<open>data\<close> of the success response, \<open>Inl\<close> the error whose
  message the failure response carries.
\<close>

definition GET :: "response \<Rightarrow> response \<Rightarrow> error + WindData" where
  "GET tabularResponse readableResponse =
     (case probeTabular tabularResponse of
        Some rawData \<Rightarrow> parseRaw True rawData
      | None \<Rightarrow> readablePath readableResponse)"

subsection \<open>Texts used as examples\<close>

text \<open>The header line of the tabular file, and a tabular text with one data line.\<close>

definition headerLine :: string where
  "headerLine =
     ''#YY  MM DD hh mm WDIR WSPD GST  WVHT   DPD   APD MWD   PRES  ATMP  WTMP  DEWP  VIS  TIDE''"

definition tabularText :: "string \<Rightarrow> string" where
  "tabularText dataLine = headerLine @ [nl] @ dataLine"

text \<open>A human-readable text of three lines: time, wind and gust.\<close>

definition windLineB :: string where
  "windLineB = ''Wind: S (180'' @ [degreeSign] @ ''), 8.0 kt''"

definition readableText :: string where
  "readableText = ''2348 GMT 11/16/25'' @ [nl] @ windLineB @ [nl] @ ''Gust: 14.0 kt''"

definition recordB :: WindData where
  "recordB =
     \<lparr>datetime = ''2025-11-16T23:48:00Z'', windDirection = Num 180, windSpeed = Num 8,
      gustSpeed = Num 14, pressure = Num 0, airTemp = Num 0, waterTemp = Num 0\<rparr>"

definition tabularTextA :: string where
  "tabularTextA =
     tabularText ''2025 11 16 23 50 180 4.1 7.2 2.3 7 5 190 1015 18.0 16.5 10 10 MM''"

text \<open>A tabular text whose data line holds the markers NOAA prints for missing values.\<close>

definition tabularTextMissing :: string where
  "tabularTextMissing =
     tabularText ''2025 11 16 23 50 999 99.0 99.0 99.00 99.00 99.00 999 9999.0 999.0 999.0 999.0 99.0 99.00''"

definition dataLineA :: string where
  "dataLineA = ''2025 11 16 23 50 180 4.1 7.2 2.3 7 5 190 1015 18.0 16.5 10 10 MM''"

subsection \<open>Notions used in the statements\<close>

text \<open>
  The tabular branch builds the record from the columns and then applies the tests of
  \<open>handleMissing\<close>. The functions below give the final value of a field from the number
  that \<^verbatim>\<open>parseFloat\<close> reads in its column: the first line of each is the expression of the
  record literal, the second the test of \<open>handleMissing\<close> for that field.
\<close>

definition directionOut :: "jsnum \<Rightarrow> jsnum" where
  "directionOut x =
     (let d = orElse x (Num 0)
      in if strictEq d 99 \<or> geq d 999 then Num 0 else d)"

definition knotsOut :: "jsnum \<Rightarrow> jsnum" where
  "knotsOut x =
     (let k = orElse (toKnots x) (Num 0)
      in if geq k 99 then Num 0 else k)"

definition pressureOut :: "jsnum \<Rightarrow> jsnum" where
  "pressureOut x =
     (let p = orElse x (Num 0)
      in if geq p 9999 then Num 0 else p)"

definition fahrenheitOut :: "jsnum \<Rightarrow> jsnum" where
  "fahrenheitOut x =
     (let t = (if truthy x then toFahrenheit x else Num 0)
      in if geq t 999 then Num 0 else t)"

text \<open>The template of the \<^verbatim>\<open>datetime\<close> field of the tabular branch.\<close>

definition tabularDatetime :: "string list \<Rightarrow> string" where
  "tabularDatetime parts =
     part parts 0 @ ''-'' @ padStart 2 (CHR ''0'') (part parts 1) @ ''-''
       @ padStart 2 (CHR ''0'') (part parts 2) @ ''T''
       @ padStart 2 (CHR ''0'') (part parts 3) @ '':''
       @ padStart 2 (CHR ''0'') (part parts 4) @ '':00Z''"

text \<open>A number below zero.\<close>

definition negative :: "jsnum \<Rightarrow> bool" where
  "negative x = (case x of NegInf \<Rightarrow> True | Num q \<Rightarrow> q < 0 | _ \<Rightarrow> False)"

text \<open>
  The formulas of the specification. \<open>round(x, 1)\<close> is read as rounding to one decimal with
  a tie going up, which is what \<^verbatim>\<open>Math.round(x * 10) / 10\<close> computes on exact numbers; the specification
  converts metres per second with the factor 1.943844 and degrees Celsius with
  \<open>c \<times> 9/5 + 32\<close>.
\<close>

definition specRound1 :: "rat \<Rightarrow> rat" where
  "specRound1 x = of_int \<lfloor>x * 10 + 1 / 2\<rfloor> / 10"

definition specKnots :: "rat \<Rightarrow> rat" where
  "specKnots v = specRound1 (v * (1943844 / 1000000))"

definition specFahrenheit :: "rat \<Rightarrow> rat" where
  "specFahrenheit c = specRound1 (c * 9 / 5 + 32)"

text \<open>
  What a regular expression matches, stated without the matcher: the words of an item, the
  words of a sequence of items, and the strings that contain a word of the sequence.
\<close>

fun rxLang :: "rx \<Rightarrow> string \<Rightarrow> bool" where
  "rxLang (Lit l) w = (w = l)"
| "rxLang (Rep p lo hi) w =
     (list_all p w \<and> lo \<le> length w \<and> (case hi of None \<Rightarrow> True | Some h \<Rightarrow> length w \<le> h))"
| "rxLang (Grp r) w = rxLang r w"

fun seqLang :: "rx list \<Rightarrow> string \<Rightarrow> bool" where
  "seqLang [] w = (w = [])"
| "seqLang (r # rs) w = (\<exists>u v. w = u @ v \<and> rxLang r u \<and> seqLang rs v)"

definition matchesRx :: "rx list \<Rightarrow> string \<Rightarrow> bool" where
  "matchesRx re s = (\<exists>pre w post. s = pre @ w @ post \<and> seqLang re w)"

fun rxGroups :: "rx \<Rightarrow> nat" where
  "rxGroups (Lit l) = 0"
| "rxGroups (Rep p lo hi) = 0"
| "rxGroups (Grp r) = Suc (rxGroups r)"

text \<open>
  The pattern \<open>HHMM GMT MM/DD/YY\<close> of the time line, written out: four digits, white space,
  \<open>GMT\<close>, white space, one or two digits, a slash, one or two digits, a slash, two digits,
  anywhere in the line.
\<close>

definition gmtPattern :: "string \<Rightarrow> bool" where
  "gmtPattern line =
     (\<exists>pre hhmm ws1 ws2 mm dd yy post.
        line = pre @ hhmm @ ws1 @ ''GMT'' @ ws2 @ mm @ ''/'' @ dd @ ''/'' @ yy @ post
        \<and> length hhmm = 4 \<and> list_all isDigit hhmm
        \<and> ws1 \<noteq> [] \<and> list_all isSpace ws1
        \<and> ws2 \<noteq> [] \<and> list_all isSpace ws2
        \<and> (length mm = 1 \<or> length mm = 2) \<and> list_all isDigit mm
        \<and> (length dd = 1 \<or> length dd = 2) \<and> list_all isDigit dd
        \<and> length yy = 2 \<and> list_all isDigit yy)"






text \<open>A human-readable text whose first line with \<open>GMT\<close> is not the time line.\<close>

definition shadowedText :: string where
  "shadowedText = ''Time zone: GMT'' @ [nl] @ readableText"

text \<open>A human-readable text with a line that contains \<open>Wind:\<close> before the wind line.\<close>

definition earlierWindText :: string where
  "earlierWindText =
     ''2348 GMT 11/16/25'' @ [nl] @ ''Wind: calm'' @ [nl] @ windLineB @ [nl] @ ''Gust: 14.0 kt''"

section \<open>Properties\<close>

subsection \<open>Lines, the probe and the two paths\<close>

lemma splitChar_nonempty: "splitChar sep s \<noteq> []"
  by (induction s) (auto split: list.splits)

lemma windDirection_handleMissing:
  "windDirection (handleMissing w) =
     (if strictEq (windDirection w) 99 \<or> geq (windDirection w) 999 then Num 0
      else windDirection w)"
  by (simp add: handleMissing_def Let_def)

lemma windSpeed_handleMissing:
  "windSpeed (handleMissing w) = (if geq (windSpeed w) 99 then Num 0 else windSpeed w)"
  by (simp add: handleMissing_def Let_def)

lemma gustSpeed_handleMissing:
  "gustSpeed (handleMissing w) = (if geq (gustSpeed w) 99 then Num 0 else gustSpeed w)"
  by (simp add: handleMissing_def Let_def)

lemma pressure_handleMissing:
  "pressure (handleMissing w) = (if geq (pressure w) 9999 then Num 0 else pressure w)"
  by (simp add: handleMissing_def Let_def)

lemma airTemp_handleMissing:
  "airTemp (handleMissing w) = (if geq (airTemp w) 999 then Num 0 else airTemp w)"
  by (simp add: handleMissing_def Let_def)

lemma waterTemp_handleMissing:
  "waterTemp (handleMissing w) = (if geq (waterTemp w) 999 then Num 0 else waterTemp w)"
  by (simp add: handleMissing_def Let_def)

lemma datetime_handleMissing: "datetime (handleMissing w) = datetime w"
  by (simp add: handleMissing_def Let_def)

lemma probeTabular_Some:
  "probeTabular t = Some raw \<longleftrightarrow>
     (\<exists>status. t = Response status raw \<and> ok status
        \<and> 1 < length (splitChar nl (trim raw))
        \<and> 10 < length (splitWs (last (splitChar nl (trim raw)))))"
  by (cases t) (auto simp: probeTabular_def Let_def)

lemma GET_tabular:
  assumes "ok status"
    and "1 < length (splitChar nl (trim body))"
    and "10 < length (splitWs (last (splitChar nl (trim body))))"
  shows "GET (Response status body) readable = parseTabular (splitChar nl (trim body))"
proof -
  have "body \<noteq> []"
    using assms(2) by (auto simp: trim_def)
  moreover have "probeTabular (Response status body) = Some body"
    using assms by (simp add: probeTabular_Some)
  ultimately show ?thesis
    using assms(2) by (simp add: GET_def parseRaw_def Let_def)
qed

lemma GET_readable:
  "probeTabular t = None \<Longrightarrow> GET t readable = readablePath readable"
  by (simp add: GET_def)



subsection \<open>Rounding to the nearest double\<close>

lemma pow2_powi: "pow2 e = 2 powi e"
  by (simp add: pow2_def power_int_def power_inverse [symmetric] inverse_eq_divide
      power_one_over)

lemma pow2_pos: "0 < pow2 e"
  by (simp add: pow2_powi)

lemma pow2_mono: "a \<le> b \<Longrightarrow> pow2 a \<le> pow2 b"
  by (simp add: pow2_powi power_int_increasing)

lemma pow2_le_D: "pow2 a \<le> pow2 b \<Longrightarrow> a \<le> b"
  using power_int_strict_increasing [of b a "2::rat"] by (fastforce simp: pow2_powi)

lemma pow2_add: "pow2 (a + b) = pow2 a * pow2 b"
  by (simp add: pow2_powi power_int_add)

lemma pow2_diff: "pow2 (a - b) = pow2 a / pow2 b"
  by (simp add: pow2_powi power_int_diff)

lemma pow2_nat: "0 \<le> e \<Longrightarrow> pow2 e = 2 ^ nat e"
  by (simp add: pow2_powi power_int_nonneg_exp)

lemma floorLog2_le:
  assumes "0 < q"
  shows "pow2 (floorLog2 q) \<le> q"
proof -
  obtain a b where ab: "quotient_of q = (a, b)"
    by (cases "quotient_of q")
  have b: "0 < b"
    using ab quotient_of_denom_pos by blast
  have q: "q = of_int a / of_int b"
    using ab by (rule quotient_of_div)
  have a: "0 < a"
    using assms b unfolding q by (simp add: zero_less_divide_iff)
  define k where "k = bitlen a - bitlen b"
  have la: "1 \<le> bitlen a" and lb: "1 \<le> bitlen b"
    using a b bitlen_eq_zero_iff [of a] bitlen_eq_zero_iff [of b] bitlen_nonneg [of a]
      bitlen_nonneg [of b] by linarith+
  have "(2::int) ^ nat (bitlen a - 1) \<le> a" and "b < (2::int) ^ nat (bitlen b)"
    using bitlen_bounds [OF a] bitlen_bounds [OF b] by simp_all
  then have 1: "(2::rat) ^ nat (bitlen a - 1) \<le> of_int a"
    and 2: "of_int b \<le> (2::rat) ^ nat (bitlen b)"
    by (metis of_int_le_iff of_int_numeral of_int_power,
        metis less_imp_le of_int_le_iff of_int_numeral of_int_power)
  have "pow2 (k - 1) = pow2 (bitlen a - 1) / pow2 (bitlen b)"
    unfolding k_def by (simp add: pow2_diff [symmetric] algebra_simps)
  also have "\<dots> = 2 ^ nat (bitlen a - 1) / 2 ^ nat (bitlen b)"
    using la lb by (simp add: pow2_nat)
  also have "\<dots> \<le> of_int a / of_int b"
    using 1 2 a b by (intro frac_le) simp_all
  finally have low: "pow2 (k - 1) \<le> q"
    unfolding q .
  show ?thesis
    using low by (simp add: floorLog2_def ab k_def Let_def)
qed

lemma roundEven_err: "\<bar>of_int (roundEven x) - x\<bar> \<le> 1 / 2"
proof -
  have "of_int \<lfloor>x\<rfloor> \<le> x" "x < of_int \<lfloor>x\<rfloor> + 1"
    by linarith+
  then show ?thesis
    by (auto simp: roundEven_def Let_def)
qed

lemma roundEven_ge: "of_int k \<le> x \<Longrightarrow> k \<le> roundEven x"
proof -
  assume "of_int k \<le> x"
  then have "k \<le> \<lfloor>x\<rfloor>" by (simp add: le_floor_iff)
  then show ?thesis
    by (auto simp: roundEven_def Let_def)
qed


lemma lastBit_ge: "floorLog2 q - 52 \<le> lastBit q" "- 1074 \<le> lastBit q"
  by (simp_all add: lastBit_def)

lemma mantissa_nonneg: "0 < q \<Longrightarrow> 0 \<le> mantissa q"
  unfolding mantissa_def by (rule roundEven_ge) (simp add: pow2_pos less_imp_le)

lemma roundPos_nonneg: "0 < q \<Longrightarrow> 0 \<le> roundPos q"
  by (simp add: roundPos_def mantissa_nonneg pow2_pos less_imp_le)

lemma pow2_lastBit_le:
  assumes "0 < q"
  shows "pow2 (lastBit q) \<le> q / 2 ^ 52 + 1 / 2 ^ 99"
proof (cases "- 1074 \<le> floorLog2 q - 52")
  case True
  then have "pow2 (lastBit q) = pow2 (floorLog2 q) / pow2 52"
    by (simp add: lastBit_def pow2_diff)
  also have "\<dots> \<le> q / pow2 52"
    using floorLog2_le [OF assms] by (simp add: divide_right_mono pow2_pos less_imp_le)
  also have "pow2 52 = 2 ^ 52"
    by (simp add: pow2_nat)
  finally show ?thesis
    by simp
next
  case False
  then have "pow2 (lastBit q) = pow2 (- 1074)"
    by (simp add: lastBit_def)
  also have "\<dots> \<le> pow2 (- 99)"
    by (rule pow2_mono) simp
  also have "\<dots> = 1 / 2 ^ 99"
    by (simp add: pow2_def)
  finally show ?thesis
    using assms by (simp add: add_increasing)
qed

lemma roundPos_err:
  assumes "0 < q"
  shows "\<bar>roundPos q - q\<bar> \<le> q / 2 ^ 53 + 1 / 2 ^ 100"
proof -
  let ?p = "pow2 (lastBit q)"
  have p: "0 < ?p" by (rule pow2_pos)
  have "\<bar>of_int (mantissa q) - q / ?p\<bar> \<le> 1 / 2"
    unfolding mantissa_def by (rule roundEven_err)
  then have "\<bar>of_int (mantissa q) - q / ?p\<bar> * ?p \<le> (1 / 2) * ?p"
    using p by (simp add: mult_right_mono)
  moreover have "\<bar>of_int (mantissa q) - q / ?p\<bar> * ?p = \<bar>roundPos q - q\<bar>"
  proof -
    have "\<bar>of_int (mantissa q) - q / ?p\<bar> * ?p = \<bar>(of_int (mantissa q) - q / ?p) * ?p\<bar>"
      using p by (simp add: abs_mult)
    also have "(of_int (mantissa q) - q / ?p) * ?p = roundPos q - q"
      using p by (simp add: roundPos_def algebra_simps)
    finally show ?thesis .
  qed
  ultimately have "\<bar>roundPos q - q\<bar> \<le> ?p / 2"
    by simp
  also have "\<dots> \<le> (q / 2 ^ 52 + 1 / 2 ^ 99) / 2"
    using pow2_lastBit_le [OF assms] by simp
  finally show ?thesis
    by simp
qed

lemma roundPos_ge_int:
  assumes "0 < q" and "0 \<le> n" and "n \<le> 2 ^ 53" and "of_int n \<le> q"
  shows "of_int n \<le> roundPos q"
proof (cases "lastBit q \<le> 0")
  case True
  let ?p = "pow2 (lastBit q)"
  have p: "0 < ?p" by (rule pow2_pos)
  have inv: "1 / ?p = of_int (2 ^ nat (- lastBit q))"
    using True by (simp add: pow2_def)
  have "of_int (n * 2 ^ nat (- lastBit q)) = of_int n * (1 / ?p)"
    by (simp only: inv of_int_mult)
  also have "\<dots> = of_int n / ?p"
    by simp
  also have "\<dots> \<le> q / ?p"
    using assms(4) p by (simp add: divide_right_mono less_imp_le)
  finally have "n * 2 ^ nat (- lastBit q) \<le> mantissa q"
    unfolding mantissa_def by (rule roundEven_ge)
  then have "(of_int (n * 2 ^ nat (- lastBit q)) :: rat) \<le> of_int (mantissa q)"
    by (simp only: of_int_le_iff)
  then have A: "of_int (n * 2 ^ nat (- lastBit q)) * ?p \<le> of_int (mantissa q) * ?p"
    using p by (intro mult_right_mono) (simp_all add: less_imp_le)
  have B: "of_int (n * 2 ^ nat (- lastBit q)) * ?p = of_int n"
  proof -
    have "of_int (n * 2 ^ nat (- lastBit q)) * ?p = of_int n * (1 / ?p) * ?p"
      by (simp only: inv of_int_mult)
    also have "\<dots> = of_int n"
      using p by simp
    finally show ?thesis .
  qed
  from A have "of_int n \<le> of_int (mantissa q) * ?p"
    by (simp only: B)
  then show ?thesis
    by (simp only: roundPos_def)
next
  case False
  then have e: "lastBit q = floorLog2 q - 52" "1 \<le> lastBit q"
    by (simp_all add: lastBit_def)
  let ?p = "pow2 (lastBit q)"
  have p: "0 < ?p" by (rule pow2_pos)
  have "pow2 52 * ?p = pow2 (floorLog2 q)"
    by (simp add: e(1) pow2_add [symmetric])
  also have "\<dots> \<le> q"
    by (rule floorLog2_le [OF assms(1)])
  finally have "pow2 52 \<le> q / ?p"
    using p by (simp add: pos_le_divide_eq)
  moreover have "pow2 52 = of_int (2 ^ 52)"
    by (simp add: pow2_def)
  ultimately have "2 ^ 52 \<le> mantissa q"
    unfolding mantissa_def by (intro roundEven_ge) simp
  then have "(of_int (2 ^ 52) :: rat) \<le> of_int (mantissa q)"
    by (simp only: of_int_le_iff)
  then have m: "(2 ^ 52 :: rat) \<le> of_int (mantissa q)"
    by simp
  have "pow2 1 \<le> ?p"
    using e(2) by (rule pow2_mono)
  then have two: "2 \<le> ?p"
    by (simp add: pow2_def)
  have "(of_int n :: rat) \<le> of_int (2 ^ 53)"
    using assms(3) by (simp only: of_int_le_iff)
  also have "\<dots> = 2 ^ 52 * 2"
    by simp
  also have "\<dots> \<le> of_int (mantissa q) * ?p"
    using m two by (intro mult_mono) simp_all
  finally show ?thesis
    by (simp add: roundPos_def)
qed

lemma floorLog2_small:
  assumes "0 < q" and "q \<le> 2 ^ 60"
  shows "floorLog2 q \<le> 60"
proof -
  have "pow2 (floorLog2 q) \<le> pow2 60"
    using floorLog2_le [OF assms(1)] assms(2) by (simp add: pow2_nat)
  then show ?thesis
    by (rule pow2_le_D)
qed

lemma not_overflows:
  assumes "0 < q" and "q \<le> 2 ^ 60"
  shows "\<not> overflows q"
  using floorLog2_small [OF assms] by (simp add: overflows_def lastBit_def max_def)

lemma toDouble_not_NaN: "toDouble q \<noteq> NaN"
  by (simp add: toDouble_def)

lemma toDouble_nonneg: "0 \<le> q \<Longrightarrow> geq (toDouble q) 0"
  by (simp add: toDouble_def geq_def roundPos_nonneg)

lemma toDouble_ge_int:
  assumes "0 \<le> n" and "n \<le> 2 ^ 53" and "of_int n \<le> q"
  shows "geq (toDouble q) (of_int n)"
proof (cases "q = 0")
  case True
  with assms show ?thesis by (simp add: toDouble_def geq_def)
next
  case False
  have "(0::rat) \<le> of_int n"
    using assms(1) by simp
  with assms(3) False have q: "0 < q"
    by linarith
  then show ?thesis
    using roundPos_ge_int [OF q assms] by (simp add: toDouble_def geq_def)
qed

lemma toDouble_err:
  assumes "\<bar>q\<bar> \<le> 2 ^ 60"
  shows "\<exists>r. toDouble q = Num r \<and> \<bar>r - q\<bar> \<le> \<bar>q\<bar> / 2 ^ 53 + 1 / 2 ^ 100"
proof (cases "q = 0")
  case True
  then show ?thesis by (simp add: toDouble_def)
next
  case False
  then have a: "0 < \<bar>q\<bar>" by simp
  have n: "\<not> overflows \<bar>q\<bar>"
    using a assms by (rule not_overflows)
  have e: "\<bar>roundPos \<bar>q\<bar> - \<bar>q\<bar>\<bar> \<le> \<bar>q\<bar> / 2 ^ 53 + 1 / 2 ^ 100"
    using a by (rule roundPos_err)
  show ?thesis
  proof (cases "0 < q")
    case True
    then show ?thesis using n e False by (simp add: toDouble_def)
  next
    case neg: False
    then have "\<bar>- roundPos \<bar>q\<bar> - q\<bar> = \<bar>roundPos \<bar>q\<bar> - \<bar>q\<bar>\<bar>"
      using False by (simp add: abs_if)
    then show ?thesis using n e False neg by (simp add: toDouble_def)
  qed
qed

subsection \<open>Conversions\<close>

lemma lit_values:
  "lit 10 = Num 10" "lit 9 = Num 9" "lit 5 = Num 5" "lit 32 = Num 32"
  "lit (1944 / 1000) = Num (2188749418902061 / 1125899906842624)"
  "lit (243 / 125) = Num (2188749418902061 / 1125899906842624)"
  by code_simp+

lemma numTimes_Num: "numTimes (Num a) (Num b) = toDouble (a * b)"
  by (simp add: numTimes_def isFinite_def valueOf_def)

lemma numOver_Num: "b \<noteq> 0 \<Longrightarrow> numOver (Num a) (Num b) = toDouble (a / b)"
  by (simp add: numOver_def isFinite_def valueOf_def)

lemma numPlus_Num: "numPlus (Num a) (Num b) = toDouble (a + b)"
  by (simp add: numPlus_def isFinite_def valueOf_def)

lemma num_special:
  "numTimes NaN y = NaN" "numOver NaN y = NaN" "numPlus NaN y = NaN"
  "0 < c \<Longrightarrow> numTimes PosInf (Num c) = PosInf" "0 < c \<Longrightarrow> numTimes NegInf (Num c) = NegInf"
  "0 < c \<Longrightarrow> numOver PosInf (Num c) = PosInf" "0 < c \<Longrightarrow> numOver NegInf (Num c) = NegInf"
  "numPlus PosInf (Num c) = PosInf" "numPlus NegInf (Num c) = NegInf"
  by (simp_all add: numTimes_def numOver_def numPlus_def isFinite_def valueOf_def signOf_def)

lemma mathRound_simps:
  "mathRound NaN = NaN" "mathRound PosInf = PosInf" "mathRound NegInf = NegInf"
  "mathRound (Num q) = Num (of_int \<lfloor>q + 1 / 2\<rfloor>)"
  by (simp_all add: mathRound_def)

lemma toKnots_special:
  "toKnots NaN = NaN" "toKnots PosInf = PosInf" "toKnots NegInf = NegInf"
  by (simp_all add: toKnots_def lit_values num_special mathRound_simps)

lemma toFahrenheit_special:
  "toFahrenheit NaN = NaN" "toFahrenheit PosInf = PosInf" "toFahrenheit NegInf = NegInf"
  by (simp_all add: toFahrenheit_def lit_values num_special mathRound_simps)

text \<open>Lower bounds by integers pass through the operations.\<close>

lemma geq_numTimes:
  assumes "geq x a" and "0 < c" and "of_int n \<le> a * c" and "0 \<le> n" and "n \<le> 2 ^ 53"
  shows "geq (numTimes x (Num c)) (of_int n)"
proof (cases x)
  case (Num q)
  with assms(1) have "a \<le> q" by (simp add: geq_def)
  then have "a * c \<le> q * c" using assms(2) by (simp add: mult_right_mono less_imp_le)
  with assms(3) have "of_int n \<le> q * c" by linarith
  then show ?thesis
    using Num assms(4,5) by (simp add: numTimes_Num toDouble_ge_int)
qed (use assms in \<open>simp_all add: geq_def num_special\<close>)

lemma geq_numOver:
  assumes "geq x a" and "0 < c" and "of_int n \<le> a / c" and "0 \<le> n" and "n \<le> 2 ^ 53"
  shows "geq (numOver x (Num c)) (of_int n)"
proof (cases x)
  case (Num q)
  with assms(1) have "a \<le> q" by (simp add: geq_def)
  then have "a / c \<le> q / c" using assms(2) by (simp add: divide_right_mono less_imp_le)
  with assms(3) have "of_int n \<le> q / c" by linarith
  then show ?thesis
    using Num assms(2,4,5) by (simp add: numOver_Num toDouble_ge_int)
qed (use assms in \<open>simp_all add: geq_def num_special\<close>)

lemma geq_numPlus:
  assumes "geq x a" and "of_int n \<le> a + c" and "0 \<le> n" and "n \<le> 2 ^ 53"
  shows "geq (numPlus x (Num c)) (of_int n)"
proof (cases x)
  case (Num q)
  with assms(1) have "a \<le> q" by (simp add: geq_def)
  with assms(2) have "of_int n \<le> q + c" by linarith
  then show ?thesis
    using Num assms(3,4) by (simp add: numPlus_Num toDouble_ge_int)
qed (use assms in \<open>simp_all add: geq_def num_special\<close>)

lemma geq_mathRound:
  assumes "geq x (of_int n)"
  shows "geq (mathRound x) (of_int n)"
proof (cases x)
  case (Num q)
  with assms have "of_int n \<le> q" by (simp add: geq_def)
  then have "n \<le> \<lfloor>q + 1 / 2\<rfloor>" by (simp add: le_floor_iff add_increasing2)
  then show ?thesis
    using Num by (simp add: mathRound_simps geq_def)
qed (use assms in \<open>simp_all add: geq_def mathRound_simps\<close>)

lemma toKnots_geq:
  assumes "geq x (of_int n)" and "0 \<le> n" and "n \<le> 1000"
  shows "geq (toKnots x) (of_int n)"
proof -
  have 1: "geq (numTimes x (Num (2188749418902061 / 1125899906842624))) (of_int n)"
    using assms by (intro geq_numTimes [where a = "of_int n"]) (simp_all add: mult_le_cancel_left1)
  have 2: "geq (numTimes (numTimes x (Num (2188749418902061 / 1125899906842624))) (Num 10))
      (of_int (n * 10))"
    using 1 assms by (intro geq_numTimes [where a = "of_int n"]) simp_all
  have 3: "geq (mathRound (numTimes (numTimes x (Num (2188749418902061 / 1125899906842624)))
      (Num 10))) (of_int (n * 10))"
    using 2 by (rule geq_mathRound)
  show ?thesis
    unfolding toKnots_def lit_values
    using 3 assms by (intro geq_numOver [where a = "of_int (n * 10)"]) simp_all
qed

lemma knots_sentinel: "geq x 99 \<Longrightarrow> geq (toKnots x) 99"
  using toKnots_geq [of x 99] by simp

lemma fahrenheit_sentinel:
  assumes "geq x 999"
  shows "geq (toFahrenheit x) 999 \<and> truthy x"
proof -
  have 1: "geq (numTimes x (Num 9)) (of_int 8991)"
    using assms by (intro geq_numTimes [where a = 999]) simp_all
  have 2: "geq (numOver (numTimes x (Num 9)) (Num 5)) (of_int 1798)"
    using 1 by (intro geq_numOver [where a = "of_int 8991"]) simp_all
  have 3: "geq (numPlus (numOver (numTimes x (Num 9)) (Num 5)) (Num 32)) (of_int 1830)"
    using 2 by (intro geq_numPlus [where a = "of_int 1798"]) simp_all
  have 4: "geq (numTimes (numPlus (numOver (numTimes x (Num 9)) (Num 5)) (Num 32)) (Num 10))
      (of_int 18300)"
    using 3 by (intro geq_numTimes [where a = "of_int 1830"]) simp_all
  have 5: "geq (mathRound (numTimes (numPlus (numOver (numTimes x (Num 9)) (Num 5)) (Num 32))
      (Num 10))) (of_int 18300)"
    using 4 by (rule geq_mathRound)
  have "geq (toFahrenheit x) (of_int 999)"
    unfolding toFahrenheit_def lit_values
    using 5 by (intro geq_numOver [where a = "of_int 18300"]) simp_all
  moreover have "truthy x"
    using assms by (cases x) (simp_all add: geq_def truthy_def)
  ultimately show ?thesis by simp
qed

text \<open>The error of a chain of operations, each rounded to the nearest double.\<close>

lemma orElse_toDouble: "orElse (toDouble q) (Num 0) = toDouble q"
  using toDouble_not_NaN [of q] by (cases "toDouble q") (auto simp: orElse_def truthy_def)

lemma round_stable:
  fixes a b d :: rat
  assumes "\<bar>b - a\<bar> \<le> d" and "\<forall>k::int. d < \<bar>a - (of_int k + 1 / 2)\<bar>"
  shows "\<lfloor>b + 1 / 2\<rfloor> = \<lfloor>a + 1 / 2\<rfloor>"
proof -
  define n where "n = \<lfloor>a + 1 / 2\<rfloor>"
  have lo: "of_int n \<le> a + 1 / 2" and hi: "a + 1 / 2 < of_int n + 1"
    unfolding n_def by linarith+
  have "d < \<bar>a - (of_int n + 1 / 2)\<bar>"
    using assms(2) by blast
  with hi have 1: "d < of_int n + 1 / 2 - a"
    by linarith
  have "d < \<bar>a - (of_int (n - 1) + 1 / 2)\<bar>"
    using assms(2) by blast
  with lo have 2: "d < a - of_int n + 1 / 2"
    by simp
  have "of_int n \<le> b + 1 / 2" "b + 1 / 2 < of_int n + 1"
    using assms(1) 1 2 by linarith+
  then have "\<lfloor>b + 1 / 2\<rfloor> = n"
    by (simp add: floor_unique)
  then show ?thesis
    by (simp add: n_def)
qed

lemma round_near:
  fixes a b d :: rat
  assumes "\<bar>b - a\<bar> \<le> d"
  shows "\<bar>of_int \<lfloor>b + 1 / 2\<rfloor> - a\<bar> \<le> 1 / 2 + d"
proof -
  have "of_int \<lfloor>b + 1 / 2\<rfloor> \<le> b + 1 / 2" "b + 1 / 2 < of_int \<lfloor>b + 1 / 2\<rfloor> + 1"
    by linarith+
  with assms show ?thesis
    by linarith
qed

lemma abs_scale:
  fixes x t e k :: rat
  assumes "\<bar>x - t\<bar> \<le> e" and "0 \<le> k"
  shows "\<bar>x * k - t * k\<bar> \<le> e * k"
proof -
  have "\<bar>x * k - t * k\<bar> = \<bar>x - t\<bar> * k"
    using assms(2) by (simp add: left_diff_distrib [symmetric] abs_mult)
  with assms show ?thesis
    by (simp add: mult_right_mono)
qed

lemma abs_bound_scale:
  fixes x B k :: rat
  assumes "\<bar>x\<bar> \<le> B" and "0 \<le> k"
  shows "\<bar>x * k\<bar> \<le> B * k"
  using abs_scale [of x 0 B k] assms by simp

lemma toDouble_step:
  assumes "\<bar>q - t\<bar> \<le> e" and "\<bar>t\<bar> \<le> B" and "e \<le> 1" and "B + 1 \<le> 2 ^ 60"
    and "e + (B + 1) / 2 ^ 53 + 1 / 2 ^ 100 \<le> e'"
  shows "\<exists>r. toDouble q = Num r \<and> \<bar>r - t\<bar> \<le> e'"
proof -
  have q: "\<bar>q\<bar> \<le> B + 1"
    using assms(1-3) by linarith
  with assms(4) have "\<bar>q\<bar> \<le> 2 ^ 60"
    by linarith
  then obtain r where r: "toDouble q = Num r"
    and "\<bar>r - q\<bar> \<le> \<bar>q\<bar> / 2 ^ 53 + 1 / 2 ^ 100"
    using toDouble_err by blast
  moreover have "\<bar>q\<bar> / 2 ^ 53 \<le> (B + 1) / 2 ^ 53"
    using q by (simp add: divide_right_mono)
  ultimately have "\<bar>r - t\<bar> \<le> e'"
    using assms(1,5) by linarith
  with r show ?thesis
    by blast
qed

lemma toKnots_chain:
  assumes "\<bar>v\<bar> \<le> 1000"
  shows "\<exists>r. toKnots (Num v) = toDouble (of_int \<lfloor>r + 1 / 2\<rfloor> / 10)
           \<and> \<bar>r - v * (1944 / 100)\<bar> \<le> 1 / 10 ^ 10"
proof -
  have "\<bar>v * (2188749418902061 / 1125899906842624) - v * (1944 / 1000)\<bar>
      = \<bar>v\<bar> * \<bar>2188749418902061 / 1125899906842624 - 1944 / 1000 :: rat\<bar>"
    by (simp only: right_diff_distrib [symmetric] abs_mult)
  also have "\<dots> \<le> 1000 * \<bar>2188749418902061 / 1125899906842624 - 1944 / 1000 :: rat\<bar>"
    using assms by (intro mult_right_mono) simp_all
  also have "\<dots> \<le> 1 / 10 ^ 12"
    by simp
  finally have e0: "\<bar>v * (2188749418902061 / 1125899906842624) - v * (1944 / 1000)\<bar>
      \<le> 1 / 10 ^ 12" .
  have b0: "\<bar>v * (1944 / 1000)\<bar> \<le> 1944"
    using abs_bound_scale [OF assms, of "1944 / 1000"] by simp
  obtain r1 where r1: "toDouble (v * (2188749418902061 / 1125899906842624)) = Num r1"
    and e1: "\<bar>r1 - v * (1944 / 1000)\<bar> \<le> 2 / 10 ^ 12"
    using toDouble_step [OF e0 b0, of "2 / 10 ^ 12"] by auto
  have e1': "\<bar>r1 * 10 - v * (1944 / 100)\<bar> \<le> 2 / 10 ^ 11"
    using abs_scale [OF e1, of 10] by (simp add: mult.commute)
  have b1: "\<bar>v * (1944 / 100)\<bar> \<le> 19440"
    using abs_bound_scale [OF assms, of "1944 / 100"] by simp
  obtain r2 where r2: "toDouble (r1 * 10) = Num r2"
    and e2: "\<bar>r2 - v * (1944 / 100)\<bar> \<le> 1 / 10 ^ 10"
    using toDouble_step [OF e1' b1, of "1 / 10 ^ 10"] by auto
  have "toKnots (Num v) = toDouble (of_int \<lfloor>r2 + 1 / 2\<rfloor> / 10)"
    by (simp only: toKnots_def lit_values numTimes_Num mathRound_simps r1 r2)
      (simp add: numOver_Num)
  with e2 show ?thesis
    by blast
qed

lemma toFahrenheit_chain:
  assumes "\<bar>c\<bar> \<le> 1000"
  shows "\<exists>r. toFahrenheit (Num c) = toDouble (of_int \<lfloor>r + 1 / 2\<rfloor> / 10)
           \<and> \<bar>r - (c * 9 / 5 + 32) * 10\<bar> \<le> 1 / 10 ^ 10"
proof -
  have e0: "\<bar>c * 9 - c * 9\<bar> \<le> 0"
    by simp
  have b0: "\<bar>c * 9\<bar> \<le> 9000"
    using abs_bound_scale [OF assms, of 9] by simp
  obtain r1 where r1: "toDouble (c * 9) = Num r1"
    and e1: "\<bar>r1 - c * 9\<bar> \<le> 2 / 10 ^ 12"
    using toDouble_step [OF e0 b0, of "2 / 10 ^ 12"] by auto
  have e1': "\<bar>r1 / 5 - c * 9 / 5\<bar> \<le> 1 / 10 ^ 12"
    using abs_scale [OF e1, of "1 / 5"] by simp
  have b1: "\<bar>c * 9 / 5\<bar> \<le> 1800"
    using abs_bound_scale [OF assms, of "9 / 5"] by simp
  obtain r2 where r2: "toDouble (r1 / 5) = Num r2"
    and e2: "\<bar>r2 - c * 9 / 5\<bar> \<le> 2 / 10 ^ 12"
    using toDouble_step [OF e1' b1, of "2 / 10 ^ 12"] by auto
  have e2': "\<bar>r2 + 32 - (c * 9 / 5 + 32)\<bar> \<le> 2 / 10 ^ 12"
    using e2 by simp
  have b2: "\<bar>c * 9 / 5 + 32\<bar> \<le> 1832"
    using b1 by linarith
  obtain r3 where r3: "toDouble (r2 + 32) = Num r3"
    and e3: "\<bar>r3 - (c * 9 / 5 + 32)\<bar> \<le> 3 / 10 ^ 12"
    using toDouble_step [OF e2' b2, of "3 / 10 ^ 12"] by auto
  have e3': "\<bar>r3 * 10 - (c * 9 / 5 + 32) * 10\<bar> \<le> 3 / 10 ^ 11"
    using abs_scale [OF e3, of 10] by simp
  have b3: "\<bar>(c * 9 / 5 + 32) * 10\<bar> \<le> 18320"
    using abs_bound_scale [OF b2, of 10] by simp
  obtain r4 where r4: "toDouble (r3 * 10) = Num r4"
    and e4: "\<bar>r4 - (c * 9 / 5 + 32) * 10\<bar> \<le> 1 / 10 ^ 10"
    using toDouble_step [OF e3' b3, of "1 / 10 ^ 10"] by auto
  have "toFahrenheit (Num c) = toDouble (of_int \<lfloor>r4 + 1 / 2\<rfloor> / 10)"
    by (simp add: toFahrenheit_def lit_values numTimes_Num numOver_Num numPlus_Num
        mathRound_simps r1 r2 r3 r4)
  with e4 show ?thesis
    by blast
qed

lemma toKnots_Num:
  assumes "\<bar>v\<bar> \<le> 1000"
  shows "\<exists>n. toKnots (Num v) = toDouble (of_int n / 10)
           \<and> \<bar>of_int n - v * (1944 / 100)\<bar> \<le> 1 / 2 + 1 / 10 ^ 10
           \<and> ((\<forall>k::int. 1 / 10 ^ 10 < \<bar>v * (1944 / 100) - (of_int k + 1 / 2)\<bar>)
                \<longrightarrow> toKnots (Num v) = toDouble (specRound1 (v * (1944 / 1000))))"
proof -
  obtain r where r: "toKnots (Num v) = toDouble (of_int \<lfloor>r + 1 / 2\<rfloor> / 10)"
    and e: "\<bar>r - v * (1944 / 100)\<bar> \<le> 1 / 10 ^ 10"
    using toKnots_chain [OF assms] by blast
  have "\<bar>of_int \<lfloor>r + 1 / 2\<rfloor> - v * (1944 / 100)\<bar> \<le> 1 / 2 + 1 / 10 ^ 10"
    using e by (rule round_near)
  moreover have "toKnots (Num v) = toDouble (specRound1 (v * (1944 / 1000)))"
    if "\<forall>k::int. 1 / 10 ^ 10 < \<bar>v * (1944 / 100) - (of_int k + 1 / 2)\<bar>"
  proof -
    have "\<lfloor>r + 1 / 2\<rfloor> = \<lfloor>v * (1944 / 100) + 1 / 2\<rfloor>"
      using e that by (rule round_stable)
    moreover have "v * (1944 / 1000) * 10 = v * (1944 / 100)"
      by simp
    ultimately show ?thesis
      by (simp only: r specRound1_def)
  qed
  ultimately show ?thesis
    using r by blast
qed

lemma toFahrenheit_Num:
  assumes "\<bar>c\<bar> \<le> 1000"
  shows "\<exists>n. toFahrenheit (Num c) = toDouble (of_int n / 10)
           \<and> \<bar>of_int n - (c * 9 / 5 + 32) * 10\<bar> \<le> 1 / 2 + 1 / 10 ^ 10
           \<and> ((\<forall>k::int. 1 / 10 ^ 10 < \<bar>(c * 9 / 5 + 32) * 10 - (of_int k + 1 / 2)\<bar>)
                \<longrightarrow> toFahrenheit (Num c) = toDouble (specFahrenheit c))"
proof -
  obtain r where r: "toFahrenheit (Num c) = toDouble (of_int \<lfloor>r + 1 / 2\<rfloor> / 10)"
    and e: "\<bar>r - (c * 9 / 5 + 32) * 10\<bar> \<le> 1 / 10 ^ 10"
    using toFahrenheit_chain [OF assms] by blast
  have "\<bar>of_int \<lfloor>r + 1 / 2\<rfloor> - (c * 9 / 5 + 32) * 10\<bar> \<le> 1 / 2 + 1 / 10 ^ 10"
    using e by (rule round_near)
  moreover have "toFahrenheit (Num c) = toDouble (specFahrenheit c)"
    if "\<forall>k::int. 1 / 10 ^ 10 < \<bar>(c * 9 / 5 + 32) * 10 - (of_int k + 1 / 2)\<bar>"
  proof -
    have "\<lfloor>r + 1 / 2\<rfloor> = \<lfloor>(c * 9 / 5 + 32) * 10 + 1 / 2\<rfloor>"
      using e that by (rule round_stable)
    then show ?thesis
      by (simp only: r specFahrenheit_def specRound1_def)
  qed
  ultimately show ?thesis
    using r by blast
qed

lemma geq_orElse: "0 < c \<Longrightarrow> geq (orElse x (Num 0)) c = geq x c"
  by (cases x) (auto simp: orElse_def truthy_def geq_def)

lemma geq_orElse_0: "geq x 0 \<Longrightarrow> geq (orElse x (Num 0)) 0"
  by (cases x) (auto simp: orElse_def truthy_def geq_def)

lemma knotsOut_eq:
  "knotsOut x = (if geq (toKnots x) 99 then Num 0 else orElse (toKnots x) (Num 0))"
  by (simp add: knotsOut_def Let_def geq_orElse)

lemma knotsOut_sentinel: "geq x 99 \<Longrightarrow> knotsOut x = Num 0"
  by (simp add: knotsOut_eq knots_sentinel)

lemma fahrenheitOut_eq:
  "fahrenheitOut x =
     (if truthy x \<and> \<not> geq (toFahrenheit x) 999 then toFahrenheit x else Num 0)"
  by (simp add: fahrenheitOut_def Let_def geq_def)

lemma fahrenheitOut_sentinel: "geq x 999 \<Longrightarrow> fahrenheitOut x = Num 0"
  by (simp add: fahrenheitOut_eq fahrenheit_sentinel)

lemma knotsOut_range:
  "knotsOut x \<noteq> NaN" "\<not> geq (knotsOut x) 99" "\<not> negative x \<Longrightarrow> geq (knotsOut x) 0"
proof -
  show "knotsOut x \<noteq> NaN"
    by (simp add: knotsOut_def Let_def orElse_def truthy_def)
  show "\<not> geq (knotsOut x) 99"
    by (simp add: knotsOut_def Let_def geq_def)
  show "geq (knotsOut x) 0" if "\<not> negative x"
  proof (cases "x = NaN")
    case True
    then show ?thesis
      by (simp add: knotsOut_eq toKnots_special orElse_def truthy_def geq_def)
  next
    case False
    with that have "geq x (of_int 0)"
      by (cases x) (simp_all add: negative_def geq_def)
    then have "geq (toKnots x) (of_int 0)"
      by (rule toKnots_geq) simp_all
    then have "geq (orElse (toKnots x) (Num 0)) 0"
      by (simp add: geq_orElse_0)
    then show ?thesis
      by (simp add: knotsOut_eq geq_def)
  qed
qed

lemma directionOut_range:
  "directionOut x = Num 0 \<or> directionOut x = x"
  "directionOut x \<noteq> NaN" "\<not> geq (directionOut x) 999" "directionOut x \<noteq> Num 99"
  "\<not> negative x \<Longrightarrow> geq (directionOut x) 0"
  "x = Num q \<Longrightarrow> 0 \<le> q \<Longrightarrow> q < 360 \<Longrightarrow> \<exists>r. directionOut x = Num r \<and> 0 \<le> r \<and> r < 360"
  by (cases x; simp add: directionOut_def Let_def orElse_def truthy_def geq_def strictEq_def
      negative_def)+

lemma knotsOut_Num:
  assumes "\<bar>v\<bar> \<le> 1000" and "\<not> geq (toKnots (Num v)) 99"
  shows "\<exists>n. knotsOut (Num v) = toDouble (of_int n / 10)
           \<and> \<bar>of_int n - v * (1944 / 100)\<bar> \<le> 1 / 2 + 1 / 10 ^ 10
           \<and> ((\<forall>k::int. 1 / 10 ^ 10 < \<bar>v * (1944 / 100) - (of_int k + 1 / 2)\<bar>)
                \<longrightarrow> knotsOut (Num v) = toDouble (specRound1 (v * (1944 / 1000))))"
proof -
  obtain n where n: "toKnots (Num v) = toDouble (of_int n / 10)"
    "\<bar>of_int n - v * (1944 / 100)\<bar> \<le> 1 / 2 + 1 / 10 ^ 10"
    "(\<forall>k::int. 1 / 10 ^ 10 < \<bar>v * (1944 / 100) - (of_int k + 1 / 2)\<bar>)
       \<longrightarrow> toKnots (Num v) = toDouble (specRound1 (v * (1944 / 1000)))"
    using toKnots_Num [OF assms(1)] by blast
  have "knotsOut (Num v) = toKnots (Num v)"
    using assms(2) by (simp add: knotsOut_eq) (simp add: n(1) orElse_toDouble)
  with n show ?thesis
    by metis
qed

lemma fahrenheitOut_Num:
  assumes "c \<noteq> 0" and "\<bar>c\<bar> \<le> 1000" and "\<not> geq (toFahrenheit (Num c)) 999"
  shows "\<exists>n. fahrenheitOut (Num c) = toDouble (of_int n / 10)
           \<and> \<bar>of_int n - (c * 9 / 5 + 32) * 10\<bar> \<le> 1 / 2 + 1 / 10 ^ 10
           \<and> ((\<forall>k::int. 1 / 10 ^ 10 < \<bar>(c * 9 / 5 + 32) * 10 - (of_int k + 1 / 2)\<bar>)
                \<longrightarrow> fahrenheitOut (Num c) = toDouble (specFahrenheit c))"
proof -
  have "fahrenheitOut (Num c) = toFahrenheit (Num c)"
    using assms(1,3) by (simp add: fahrenheitOut_eq truthy_def)
  then show ?thesis
    using toFahrenheit_Num [OF assms(2)] by simp
qed

text \<open>A number strictly between two consecutive half-integers is far from all of them.\<close>

lemma half_integers_far:
  fixes x d :: rat
  assumes "of_int m + 1 / 2 + d < x" and "x < of_int m + 3 / 2 - d"
  shows "\<forall>k::int. d < \<bar>x - (of_int k + 1 / 2)\<bar>"
proof
  fix k :: int
  consider "k \<le> m" | "m + 1 \<le> k"
    by linarith
  then show "d < \<bar>x - (of_int k + 1 / 2)\<bar>"
  proof cases
    case 1
    then have "(of_int k :: rat) \<le> of_int m"
      by simp
    with assms(1) show ?thesis
      by linarith
  next
    case 2
    then have "(of_int (m + 1) :: rat) \<le> of_int k"
      by (simp only: of_int_le_iff)
    then have "(of_int m :: rat) + 1 \<le> of_int k"
      by simp
    with assms(2) show ?thesis
      by linarith
  qed
qed

subsection \<open>The record of the tabular branch\<close>

text \<open>
  A tabular text that passes the probe and the column check gives a record: the one built
  from the columns of the last line, after the six tests of \<open>handleMissing\<close>.
\<close>

lemma more_handleMissing: "WindData.more (handleMissing w) = WindData.more w"
  by (simp add: handleMissing_def Let_def)

lemma handleMissing_fields:
  "handleMissing
     \<lparr>datetime = dt, windDirection = orElse d (Num 0), windSpeed = orElse (toKnots s) (Num 0),
      gustSpeed = orElse (toKnots g) (Num 0), pressure = orElse p (Num 0),
      airTemp = (if truthy a then toFahrenheit a else Num 0),
      waterTemp = (if truthy t then toFahrenheit t else Num 0)\<rparr>
   = \<lparr>datetime = dt, windDirection = directionOut d, windSpeed = knotsOut s,
      gustSpeed = knotsOut g, pressure = pressureOut p, airTemp = fahrenheitOut a,
      waterTemp = fahrenheitOut t\<rparr>"
proof (rule WindData.equality)
  show "datetime (handleMissing
     \<lparr>datetime = dt, windDirection = orElse d (Num 0), windSpeed = orElse (toKnots s) (Num 0),
      gustSpeed = orElse (toKnots g) (Num 0), pressure = orElse p (Num 0),
      airTemp = (if truthy a then toFahrenheit a else Num 0),
      waterTemp = (if truthy t then toFahrenheit t else Num 0)\<rparr>)
     = datetime \<lparr>datetime = dt, windDirection = directionOut d, windSpeed = knotsOut s,
      gustSpeed = knotsOut g, pressure = pressureOut p, airTemp = fahrenheitOut a,
      waterTemp = fahrenheitOut t\<rparr>"
    by (simp add: datetime_handleMissing)
qed (simp_all only: windDirection_handleMissing windSpeed_handleMissing gustSpeed_handleMissing
      pressure_handleMissing airTemp_handleMissing waterTemp_handleMissing more_handleMissing
      WindData.simps directionOut_def knotsOut_def pressureOut_def fahrenheitOut_def Let_def)

lemma tabular_record:
  assumes "ok status"
    and "lines = splitChar nl (trim body)" and "1 < length lines"
    and "parts = splitWs (last lines)" and "13 \<le> length parts"
  shows "GET (Response status body) readable =
     Inr \<lparr>datetime = tabularDatetime parts,
          windDirection = directionOut (parseFloat (part parts 5)),
          windSpeed = knotsOut (parseFloat (part parts 6)),
          gustSpeed = knotsOut (parseFloat (part parts 7)),
          pressure = pressureOut (parseFloat (part parts 12)),
          airTemp = fahrenheitOut (parseFloat (part parts 13)),
          waterTemp = fahrenheitOut (parseFloat (part parts 14))\<rparr>"
proof -
  have "GET (Response status body) readable = parseTabular lines"
    using assms by (simp add: GET_tabular)
  moreover have "\<not> length parts < 13"
    using assms(5) by simp
  ultimately show ?thesis
    unfolding parseTabular_def Let_def assms(4) [symmetric]
    by (simp only: if_False handleMissing_fields tabularDatetime_def)
qed

lemma tabular_fields:
  assumes "ok status"
    and "lines = splitChar nl (trim body)" and "1 < length lines"
    and "parts = splitWs (last lines)" and "13 \<le> length parts"
  obtains w where "GET (Response status body) readable = Inr w"
    and "windDirection w = directionOut (parseFloat (part parts 5))"
    and "windSpeed w = knotsOut (parseFloat (part parts 6))"
    and "gustSpeed w = knotsOut (parseFloat (part parts 7))"
    and "pressure w = pressureOut (parseFloat (part parts 12))"
    and "airTemp w = fahrenheitOut (parseFloat (part parts 13))"
    and "waterTemp w = fahrenheitOut (parseFloat (part parts 14))"
  using tabular_record [OF assms, of readable] by simp

text \<open>The same, for the evaluation of the handler on a given text, field by field.\<close>

lemma tabular_eval:
  assumes "ok status"
    and "1 < length (splitChar nl (trim body))"
    and "13 \<le> length (splitWs (last (splitChar nl (trim body))))"
    and "tabularDatetime (splitWs (last (splitChar nl (trim body)))) = dt"
    and "directionOut (parseFloat (part (splitWs (last (splitChar nl (trim body)))) 5)) = d"
    and "knotsOut (parseFloat (part (splitWs (last (splitChar nl (trim body)))) 6)) = s"
    and "knotsOut (parseFloat (part (splitWs (last (splitChar nl (trim body)))) 7)) = g"
    and "pressureOut (parseFloat (part (splitWs (last (splitChar nl (trim body)))) 12)) = p"
    and "fahrenheitOut (parseFloat (part (splitWs (last (splitChar nl (trim body)))) 13)) = a"
    and "fahrenheitOut (parseFloat (part (splitWs (last (splitChar nl (trim body)))) 14)) = t"
  shows "GET (Response status body) readable =
     Inr \<lparr>datetime = dt, windDirection = d, windSpeed = s, gustSpeed = g, pressure = p,
          airTemp = a, waterTemp = t\<rparr>"
  using tabular_record [OF assms(1) refl assms(2) refl assms(3), of readable]
  by (simp add: assms(4-))

lemma tabularTextA_passes:
  "ok 200" "1 < length (splitChar nl (trim tabularTextA))"
  "13 \<le> length (splitWs (last (splitChar nl (trim tabularTextA))))"
  by code_simp+

lemma tabularTextMissing_passes:
  "1 < length (splitChar nl (trim tabularTextMissing))"
  "13 \<le> length (splitWs (last (splitChar nl (trim tabularTextMissing))))"
  by code_simp+

subsection \<open>The matcher finds a match exactly when there is one\<close>

lemma list_all_take_takeWhile:
  "k \<le> length s \<Longrightarrow> list_all p (take k s) \<longleftrightarrow> k \<le> length (takeWhile p s)"
proof (induction s arbitrary: k)
  case Nil
  then show ?case by simp
next
  case (Cons c s)
  then show ?case by (cases k) auto
qed

lemma rxRun_sound:
  "(s', caps') \<in> set (rxRun r (s, caps)) \<Longrightarrow> \<exists>u. s = u @ s' \<and> rxLang r u"
proof (induction r arbitrary: caps caps')
  case (Lit l)
  then have "take (length l) s = l" and "s' = drop (length l) s"
    by (auto simp: startsWith_def split: if_splits)
  then show ?case
    by (metis append_take_drop_id rxLang.simps(1))
next
  case (Rep p lo hi)
  then obtain k where k: "lo \<le> k" "k \<le> repMax hi (length (takeWhile p s))" "s' = drop k s"
    by auto
  have n: "length (takeWhile p s) \<le> length s"
    by (rule length_takeWhile_le)
  have kn: "k \<le> length (takeWhile p s)"
    using k(2) by (cases hi) (auto simp: repMax_def)
  then have "list_all p (take k s)"
    using n by (simp add: list_all_take_takeWhile)
  moreover have "length (take k s) = k"
    using kn n by simp
  moreover have "case hi of None \<Rightarrow> True | Some h \<Rightarrow> k \<le> h"
    using k(2) by (cases hi) (auto simp: repMax_def)
  ultimately have "rxLang (Rep p lo hi) (take k s)"
    using k(1) by (auto split: option.splits)
  then show ?case
    using k(3) by (metis append_take_drop_id)
next
  case (Grp r)
  then show ?case by auto
qed

lemma rxRun_complete:
  "rxLang r u \<Longrightarrow> \<exists>caps'. (s', caps') \<in> set (rxRun r (u @ s', caps))"
proof (induction r arbitrary: caps)
  case (Lit l)
  then show ?case by (simp add: startsWith_def)
next
  case (Rep p lo hi)
  then have u: "list_all p u" "lo \<le> length u" "case hi of None \<Rightarrow> True | Some h \<Rightarrow> length u \<le> h"
    by simp_all
  have "list_all p (take (length u) (u @ s'))"
    using u(1) by simp
  then have "length u \<le> length (takeWhile p (u @ s'))"
    by (subst (asm) list_all_take_takeWhile) simp_all
  then have "length u \<le> repMax hi (length (takeWhile p (u @ s')))"
    using u(3) by (cases hi) (auto simp: repMax_def)
  then have "length u \<in> set (rev [lo ..< Suc (repMax hi (length (takeWhile p (u @ s'))))])"
    using u(2) by (auto simp: less_Suc_eq_le)
  then have "(drop (length u) (u @ s'), caps)
      \<in> (\<lambda>k. (drop k (u @ s'), caps))
          ` set (rev [lo ..< Suc (repMax hi (length (takeWhile p (u @ s'))))])"
    by (rule imageI)
  then have "(s', caps) \<in> set (rxRun (Rep p lo hi) (u @ s', caps))"
    by (simp del: set_rev set_upt)
  then show ?case by auto
next
  case (Grp r)
  from Grp.IH [OF Grp.prems [simplified], of caps]
  obtain c where "(s', c) \<in> set (rxRun r (u @ s', caps))" by blast
  then show ?case by force
qed

lemma rxSeq_sound:
  "(s', caps') \<in> set (rxSeq rs (s, caps)) \<Longrightarrow> \<exists>w. s = w @ s' \<and> seqLang rs w"
proof (induction rs arbitrary: s caps)
  case Nil
  then show ?case by simp
next
  case (Cons r rs)
  then obtain s1 c1 where 1: "(s1, c1) \<in> set (rxRun r (s, caps))"
    and 2: "(s', caps') \<in> set (rxSeq rs (s1, c1))"
    by auto
  from rxRun_sound [OF 1] obtain u where "s = u @ s1" "rxLang r u" by blast
  moreover from Cons.IH [OF 2] obtain v where "s1 = v @ s'" "seqLang rs v" by blast
  ultimately show ?case
    by (intro exI [of _ "u @ v"]) auto
qed

lemma rxSeq_complete:
  "seqLang rs w \<Longrightarrow> \<exists>caps'. (s', caps') \<in> set (rxSeq rs (w @ s', caps))"
proof (induction rs arbitrary: w caps)
  case Nil
  then show ?case by simp
next
  case (Cons r rs)
  then obtain u v where w: "w = u @ v" and u: "rxLang r u" and v: "seqLang rs v"
    by auto
  from rxRun_complete [OF u, of "v @ s'" caps]
  obtain c1 where 1: "(v @ s', c1) \<in> set (rxRun r (u @ v @ s', caps))" by blast
  from Cons.IH [OF v, of c1] obtain c2 where "(s', c2) \<in> set (rxSeq rs (v @ s', c1))" by blast
  with 1 show ?case
    unfolding w by (intro exI [of _ c2]) (auto intro!: bexI [of _ "(v @ s', c1)"])
qed

lemma rxSeq_nonempty_iff:
  "rxSeq rs (s, caps) \<noteq> [] \<longleftrightarrow> (\<exists>w post. s = w @ post \<and> seqLang rs w)"
proof
  assume "rxSeq rs (s, caps) \<noteq> []"
  then obtain s' c' where "(s', c') \<in> set (rxSeq rs (s, caps))"
    by (cases "rxSeq rs (s, caps)") auto
  from rxSeq_sound [OF this] show "\<exists>w post. s = w @ post \<and> seqLang rs w" by blast
next
  assume "\<exists>w post. s = w @ post \<and> seqLang rs w"
  then obtain w post where "s = w @ post" "seqLang rs w" by blast
  with rxSeq_complete [of rs w post caps] show "rxSeq rs (s, caps) \<noteq> []" by auto
qed

lemma rxExec_None_iff: "rxExec re s = None \<longleftrightarrow> \<not> matchesRx re s"
proof (induction s)
  case Nil
  have "rxExec re [] = None \<longleftrightarrow> rxSeq re ([], []) = []"
    by (simp split: list.splits)
  moreover have "rxSeq re ([], []) \<noteq> [] \<longleftrightarrow> seqLang re []"
    by (simp add: rxSeq_nonempty_iff)
  moreover have "matchesRx re [] \<longleftrightarrow> seqLang re []"
    by (simp add: matchesRx_def)
  ultimately show ?case
    by blast
next
  case (Cons c s)
  have "matchesRx re (c # s) \<longleftrightarrow> rxSeq re (c # s, []) \<noteq> [] \<or> matchesRx re s"
  proof
    assume "matchesRx re (c # s)"
    then obtain pre w post where p: "c # s = pre @ w @ post" "seqLang re w"
      by (auto simp: matchesRx_def)
    show "rxSeq re (c # s, []) \<noteq> [] \<or> matchesRx re s"
    proof (cases pre)
      case Nil
      with p show ?thesis by (auto simp: rxSeq_nonempty_iff)
    next
      case (Cons a pre')
      with p have "s = pre' @ w @ post" by simp
      with p(2) show ?thesis by (auto simp: matchesRx_def)
    qed
  next
    assume "rxSeq re (c # s, []) \<noteq> [] \<or> matchesRx re s"
    then show "matchesRx re (c # s)"
    proof
      assume "rxSeq re (c # s, []) \<noteq> []"
      then obtain w post where "c # s = w @ post" "seqLang re w"
        by (auto simp: rxSeq_nonempty_iff)
      then have "c # s = [] @ w @ post \<and> seqLang re w" by simp
      then show ?thesis unfolding matchesRx_def by blast
    next
      assume "matchesRx re s"
      then obtain pre w post where "s = pre @ w @ post" "seqLang re w"
        by (auto simp: matchesRx_def)
      then have "c # s = (c # pre) @ w @ post \<and> seqLang re w" by simp
      then show ?thesis unfolding matchesRx_def by blast
    qed
  qed
  moreover have "rxExec re (c # s) = None \<longleftrightarrow> rxSeq re (c # s, []) = [] \<and> rxExec re s = None"
    by (simp split: list.splits)
  ultimately show ?case using Cons.IH by simp
qed

subsection \<open>Groups and the pattern of the time line\<close>

lemma rxRun_caps:
  "(s', caps') \<in> set (rxRun r (s, caps)) \<Longrightarrow> length caps' = length caps + rxGroups r"
  by (induction r arbitrary: caps caps') (auto split: if_splits)

lemma rxSeq_caps:
  "(s', caps') \<in> set (rxSeq rs (s, caps))
   \<Longrightarrow> length caps' = length caps + sum_list (map rxGroups rs)"
proof (induction rs arbitrary: s caps)
  case Nil
  then show ?case by simp
next
  case (Cons r rs)
  then obtain s1 c1 where "(s1, c1) \<in> set (rxRun r (s, caps))"
    and "(s', caps') \<in> set (rxSeq rs (s1, c1))"
    by auto
  then show ?case
    using Cons.IH [of s1 c1] rxRun_caps [of s1 c1 r s caps] by simp
qed

lemma rxExec_caps: "rxExec re s = Some caps \<Longrightarrow> length caps = sum_list (map rxGroups re)"
proof (induction s)
  case Nil
  then obtain st where "st \<in> set (rxSeq re ([], []))" "caps = snd st"
    by (auto split: list.splits)
  then show ?case
    using rxSeq_caps [of "fst st" "snd st" re "[]" "[]"] by simp
next
  case (Cons c s)
  show ?case
  proof (cases "rxSeq re (c # s, [])")
    case Nil
    with Cons show ?thesis by simp
  next
    case (Cons st sts)
    with Cons.prems have "st \<in> set (rxSeq re (c # s, []))" "caps = snd st"
      by auto
    then show ?thesis
      using rxSeq_caps [of "fst st" "snd st" re "c # s" "[]"] by simp
  qed
qed

lemma seqLang_gmtRx:
  "seqLang gmtRx w \<longleftrightarrow>
     (\<exists>hhmm ws1 ws2 mm dd yy.
        w = hhmm @ ws1 @ ''GMT'' @ ws2 @ mm @ ''/'' @ dd @ ''/'' @ yy
        \<and> length hhmm = 4 \<and> list_all isDigit hhmm
        \<and> ws1 \<noteq> [] \<and> list_all isSpace ws1
        \<and> ws2 \<noteq> [] \<and> list_all isSpace ws2
        \<and> (length mm = 1 \<or> length mm = 2) \<and> list_all isDigit mm
        \<and> (length dd = 1 \<or> length dd = 2) \<and> list_all isDigit dd
        \<and> length yy = 2 \<and> list_all isDigit yy)"
  (is "?L \<longleftrightarrow> ?R")
proof
  have some: "Suc 0 \<le> length u \<Longrightarrow> u \<noteq> []" for u :: string by auto
  assume ?L
  then obtain hhmm ws1 ws2 mm dd yy where
    "w = hhmm @ ws1 @ ''GMT'' @ ws2 @ mm @ ''/'' @ dd @ ''/'' @ yy"
    "list_all isDigit hhmm" "4 \<le> length hhmm" "length hhmm \<le> 4"
    "list_all isSpace ws1" "Suc 0 \<le> length ws1" "list_all isSpace ws2" "Suc 0 \<le> length ws2"
    "list_all isDigit mm" "Suc 0 \<le> length mm" "length mm \<le> 2"
    "list_all isDigit dd" "Suc 0 \<le> length dd" "length dd \<le> 2"
    "list_all isDigit yy" "2 \<le> length yy" "length yy \<le> 2"
    unfolding gmtRx_def by auto
  moreover from this have "length hhmm = 4" "ws1 \<noteq> []" "ws2 \<noteq> []"
    "length mm = 1 \<or> length mm = 2" "length dd = 1 \<or> length dd = 2" "length yy = 2"
    by auto
  ultimately show ?R by blast
next
  assume ?R
  then obtain hhmm ws1 ws2 mm dd yy where
    w: "w = hhmm @ ws1 @ ''GMT'' @ ws2 @ mm @ ''/'' @ dd @ ''/'' @ yy"
    and f: "length hhmm = 4" "list_all isDigit hhmm" "ws1 \<noteq> []" "list_all isSpace ws1"
      "ws2 \<noteq> []" "list_all isSpace ws2" "length mm = 1 \<or> length mm = 2" "list_all isDigit mm"
      "length dd = 1 \<or> length dd = 2" "list_all isDigit dd" "length yy = 2" "list_all isDigit yy"
    by blast
  have ne: "Suc 0 \<le> length ws1" "Suc 0 \<le> length ws2"
    using f(3,5) by (simp_all add: Suc_le_eq)
  have 9: "seqLang [Grp (Rep isDigit 2 (Some 2))] yy"
    using f by simp
  have 8: "seqLang [Lit ''/'', Grp (Rep isDigit 2 (Some 2))] (''/'' @ yy)"
    unfolding seqLang.simps(2) [of "Lit ''/''"] using 9 by (intro exI [of _ "''/''"] exI [of _ yy]) simp
  have 7: "seqLang [Grp (Rep isDigit 1 (Some 2)), Lit ''/'', Grp (Rep isDigit 2 (Some 2))]
      (dd @ ''/'' @ yy)"
    unfolding seqLang.simps(2) [of "Grp (Rep isDigit 1 (Some 2))"]
    using 8 f by (intro exI [of _ dd] exI [of _ "''/'' @ yy"]) auto
  have 6: "seqLang [Lit ''/'', Grp (Rep isDigit 1 (Some 2)), Lit ''/'', Grp (Rep isDigit 2 (Some 2))]
      (''/'' @ dd @ ''/'' @ yy)"
    unfolding seqLang.simps(2) [of "Lit ''/''"]
    using 7 by (intro exI [of _ "''/''"] exI [of _ "dd @ ''/'' @ yy"]) simp
  have 5: "seqLang [Grp (Rep isDigit 1 (Some 2)), Lit ''/'', Grp (Rep isDigit 1 (Some 2)), Lit ''/'',
      Grp (Rep isDigit 2 (Some 2))] (mm @ ''/'' @ dd @ ''/'' @ yy)"
    unfolding seqLang.simps(2) [of "Grp (Rep isDigit 1 (Some 2))"]
    using 6 f by (intro exI [of _ mm] exI [of _ "''/'' @ dd @ ''/'' @ yy"]) auto
  have 4: "seqLang [Rep isSpace 1 None, Grp (Rep isDigit 1 (Some 2)), Lit ''/'',
      Grp (Rep isDigit 1 (Some 2)), Lit ''/'', Grp (Rep isDigit 2 (Some 2))]
      (ws2 @ mm @ ''/'' @ dd @ ''/'' @ yy)"
    unfolding seqLang.simps(2) [of "Rep isSpace 1 None"]
    using 5 f ne by (intro exI [of _ ws2] exI [of _ "mm @ ''/'' @ dd @ ''/'' @ yy"]) simp
  have 3: "seqLang [Lit ''GMT'', Rep isSpace 1 None, Grp (Rep isDigit 1 (Some 2)), Lit ''/'',
      Grp (Rep isDigit 1 (Some 2)), Lit ''/'', Grp (Rep isDigit 2 (Some 2))]
      (''GMT'' @ ws2 @ mm @ ''/'' @ dd @ ''/'' @ yy)"
    unfolding seqLang.simps(2) [of "Lit ''GMT''"]
    using 4 by (intro exI [of _ "''GMT''"] exI [of _ "ws2 @ mm @ ''/'' @ dd @ ''/'' @ yy"]) simp
  have 2: "seqLang [Rep isSpace 1 None, Lit ''GMT'', Rep isSpace 1 None,
      Grp (Rep isDigit 1 (Some 2)), Lit ''/'', Grp (Rep isDigit 1 (Some 2)), Lit ''/'',
      Grp (Rep isDigit 2 (Some 2))] (ws1 @ ''GMT'' @ ws2 @ mm @ ''/'' @ dd @ ''/'' @ yy)"
    unfolding seqLang.simps(2) [of "Rep isSpace 1 None"]
    using 3 f ne
    by (intro exI [of _ ws1] exI [of _ "''GMT'' @ ws2 @ mm @ ''/'' @ dd @ ''/'' @ yy"]) simp
  show ?L
    unfolding gmtRx_def w seqLang.simps(2) [of "Grp (Rep isDigit 4 (Some 4))"]
    using 2 f
    by (intro exI [of _ hhmm] exI [of _ "ws1 @ ''GMT'' @ ws2 @ mm @ ''/'' @ dd @ ''/'' @ yy"])
      simp
qed

lemma gmtPattern_iff: "gmtPattern line \<longleftrightarrow> matchesRx gmtRx line"
proof
  assume "gmtPattern line"
  then obtain pre hhmm ws1 ws2 mm dd yy post where
    l: "line = pre @ hhmm @ ws1 @ ''GMT'' @ ws2 @ mm @ ''/'' @ dd @ ''/'' @ yy @ post"
    and f: "length hhmm = 4" "list_all isDigit hhmm" "ws1 \<noteq> []" "list_all isSpace ws1"
      "ws2 \<noteq> []" "list_all isSpace ws2" "length mm = 1 \<or> length mm = 2" "list_all isDigit mm"
      "length dd = 1 \<or> length dd = 2" "list_all isDigit dd" "length yy = 2" "list_all isDigit yy"
    unfolding gmtPattern_def by blast
  have "seqLang gmtRx (hhmm @ ws1 @ ''GMT'' @ ws2 @ mm @ ''/'' @ dd @ ''/'' @ yy)"
    unfolding seqLang_gmtRx using f by blast
  moreover have "line = pre @ (hhmm @ ws1 @ ''GMT'' @ ws2 @ mm @ ''/'' @ dd @ ''/'' @ yy) @ post"
    using l by simp
  ultimately show "matchesRx gmtRx line"
    unfolding matchesRx_def by blast
next
  assume "matchesRx gmtRx line"
  then obtain pre w post where l: "line = pre @ w @ post" and w: "seqLang gmtRx w"
    unfolding matchesRx_def by blast
  from w obtain hhmm ws1 ws2 mm dd yy where
    "w = hhmm @ ws1 @ ''GMT'' @ ws2 @ mm @ ''/'' @ dd @ ''/'' @ yy"
    and f: "length hhmm = 4" "list_all isDigit hhmm" "ws1 \<noteq> []" "list_all isSpace ws1"
      "ws2 \<noteq> []" "list_all isSpace ws2" "length mm = 1 \<or> length mm = 2" "list_all isDigit mm"
      "length dd = 1 \<or> length dd = 2" "list_all isDigit dd" "length yy = 2" "list_all isDigit yy"
    unfolding seqLang_gmtRx by blast
  with l have "line = pre @ hhmm @ ws1 @ ''GMT'' @ ws2 @ mm @ ''/'' @ dd @ ''/'' @ yy @ post"
    by simp
  with f show "gmtPattern line"
    unfolding gmtPattern_def by blast
qed

lemma gmtPattern_exec: "rxExec gmtRx line \<noteq> None \<Longrightarrow> gmtPattern line"
  unfolding gmtPattern_iff rxExec_None_iff by blast

lemma extractDateTime_empty_iff:
  "extractDateTime lines = [] \<longleftrightarrow>
     (case List.find (\<lambda>line. includesStr line ''GMT'') lines of
        None \<Rightarrow> True
      | Some gmtLine \<Rightarrow> \<not> gmtPattern gmtLine)"
proof (cases "List.find (\<lambda>line. includesStr line ''GMT'') lines")
  case None
  then show ?thesis by (simp add: extractDateTime_def)
next
  case (Some gmtLine)
  show ?thesis
  proof (cases "rxExec gmtRx gmtLine")
    case None
    then have "\<not> gmtPattern gmtLine"
      by (simp add: gmtPattern_iff rxExec_None_iff)
    then show ?thesis
      using Some None by (simp add: extractDateTime_def)
  next
    case (Some caps)
    then have "length caps = 4"
      using rxExec_caps [of gmtRx gmtLine caps] by (simp add: gmtRx_def)
    then obtain time month day year where "caps = [time, month, day, year]"
      by (auto simp: length_Suc_conv numeral_eq_Suc)
    moreover have "gmtPattern gmtLine"
      using Some rxExec_None_iff [of gmtRx gmtLine] by (simp add: gmtPattern_iff)
    ultimately show ?thesis
      using Some \<open>List.find (\<lambda>line. includesStr line ''GMT'') lines = Some gmtLine\<close>
      by (simp add: extractDateTime_def Let_def)
  qed
qed

subsection \<open>The first match\<close>









subsection \<open>The patterns of the wind line\<close>

lemma digit_not_others:
  "isDigit c \<Longrightarrow> \<not> isSpace c \<and> \<not> isDegree c \<and> c \<noteq> CHR '')''"
  by (auto simp: isDigit_def isSpace_def isDegree_def degreeSign_def)















subsection \<open>The record of the human-readable branch\<close>

lemma GET_parseReadable:
  assumes "probeTabular t = None" and "ok st"
    and "lines = splitChar nl (trim text)" and "2 \<le> length lines"
  shows "GET t (Response st text) = parseReadable lines"
proof -
  have "text \<noteq> []"
    using assms(3,4) by (auto simp: trim_def)
  then show ?thesis
    using assms by (simp add: GET_readable readablePath_def parseRaw_def Let_def)
qed

lemma find_member: "List.find P xs = Some x \<Longrightarrow> x \<in> set xs"
  by (auto simp: find_Some_iff)

lemma two_members: "x \<in> set xs \<Longrightarrow> y \<in> set xs \<Longrightarrow> x \<noteq> y \<Longrightarrow> 2 \<le> length xs"
proof -
  assume a: "x \<in> set xs" "y \<in> set xs" "x \<noteq> y"
  then have "card {x, y} \<le> card (set xs)"
    by (intro card_mono) auto
  moreover have "card {x, y} = 2"
    using a(3) by simp
  ultimately show ?thesis
    using card_length [of xs] by simp
qed

subsection \<open>The column check after the probe (C1)\<close>

text \<open>
  C1, as the code has it. A tabular text of at least two lines whose last line has 11 or 12
  columns passes the probe (more than 10 columns) and fails the column check of the tabular
  branch (at least 13). The error thrown there is not recovered: whatever the second
  source would have given, the handler fails with
  \<^verbatim>\<open>Invalid tabular data format. Expected at least 13 columns, got n\<close>. The fallback to
  the human-readable text happens at the probe only.
\<close>

theorem C1_structural_error_is_surfaced:
  assumes "ok status"
    and "1 < length (splitChar nl (trim body))"
    and "n = length (splitWs (last (splitChar nl (trim body))))"
    and "10 < n" and "n < 13"
  shows "GET (Response status body) readable = Inl (InvalidTabular n)"
  using assms by (simp add: GET_tabular parseTabular_def Let_def)

theorem C1_structural_error_is_surfaced_witness:
  "ok 200
   \<and> 1 < length (splitChar nl (trim (tabularText ''2025 11 16 23 50 180 4.1 7.2 2.3 7 5'')))
   \<and> length (splitWs (last (splitChar nl
         (trim (tabularText ''2025 11 16 23 50 180 4.1 7.2 2.3 7 5''))))) = 11
   \<and> GET (Response 200 (tabularText ''2025 11 16 23 50 180 4.1 7.2 2.3 7 5''))
         (Response 200 readableText) = Inl (InvalidTabular 11)"
proof -
  let ?body = "tabularText ''2025 11 16 23 50 180 4.1 7.2 2.3 7 5''"
  have h1: "ok 200" by code_simp
  have h2: "1 < length (splitChar nl (trim ?body))" by code_simp
  have h3: "11 = length (splitWs (last (splitChar nl (trim ?body))))" by code_simp
  show ?thesis
    using h1 h2 h3 C1_structural_error_is_surfaced [OF h1 h2 h3, of "Response 200 readableText"]
    by simp
qed

text \<open>
  C1 as stated fails: with a last line of 11 columns the handler returns the structural
  error, although the human-readable text alone gives a record.
\<close>

theorem C1_counterexample:
  "readablePath (Response 200 readableText) = Inr recordB
   \<and> GET (Response 200 (tabularText ''2025 11 16 23 50 180 4.1 7.2 2.3 7 5''))
         (Response 200 readableText) = Inl (InvalidTabular 11)"
  by code_simp

subsection \<open>Ranges of the tabular record (C2)\<close>

text \<open>
  C2, as the code has it. A tabular text of at least two lines whose last line has at least
  13 columns gives a record. Its wind direction is 0 or the number read from column 5; it is
  never \<open>NaN\<close>, it is below 999 and it is not 99. Its wind speed and gust speed are never
  \<open>NaN\<close> and are below 99. Nothing clamps the values from below or to a circle: the
  direction and the speeds are at least 0 when the column does not read as a negative
  number, and the direction is in \<open>[0, 360)\<close> when column 5 reads as a number of that
  interval.
\<close>

theorem C2_tabular_ranges:
  assumes "ok status"
    and "lines = splitChar nl (trim body)" and "1 < length lines"
    and "parts = splitWs (last lines)" and "13 \<le> length parts"
  shows "\<exists>w. GET (Response status body) readable = Inr w
     \<and> (windDirection w = Num 0 \<or> windDirection w = parseFloat (part parts 5))
     \<and> windDirection w \<noteq> NaN \<and> \<not> geq (windDirection w) 999 \<and> windDirection w \<noteq> Num 99
     \<and> windSpeed w \<noteq> NaN \<and> \<not> geq (windSpeed w) 99
     \<and> gustSpeed w \<noteq> NaN \<and> \<not> geq (gustSpeed w) 99
     \<and> (\<not> negative (parseFloat (part parts 5)) \<longrightarrow> geq (windDirection w) 0)
     \<and> (\<not> negative (parseFloat (part parts 6)) \<longrightarrow> geq (windSpeed w) 0)
     \<and> (\<not> negative (parseFloat (part parts 7)) \<longrightarrow> geq (gustSpeed w) 0)
     \<and> (\<forall>q. parseFloat (part parts 5) = Num q \<and> 0 \<le> q \<and> q < 360
            \<longrightarrow> (\<exists>r. windDirection w = Num r \<and> 0 \<le> r \<and> r < 360))"
proof -
  obtain w where w: "GET (Response status body) readable = Inr w"
    and f: "windDirection w = directionOut (parseFloat (part parts 5))"
      "windSpeed w = knotsOut (parseFloat (part parts 6))"
      "gustSpeed w = knotsOut (parseFloat (part parts 7))"
    using tabular_fields [OF assms] by blast
  show ?thesis
    apply (rule exI [of _ w])
    unfolding f
    using w directionOut_range [of "parseFloat (part parts 5)"]
      knotsOut_range [of "parseFloat (part parts 6)"]
      knotsOut_range [of "parseFloat (part parts 7)"]
    by blast
qed

theorem C2_tabular_ranges_witness:
  "ok 200 \<and> 1 < length (splitChar nl (trim tabularTextA))
   \<and> 13 \<le> length (splitWs (last (splitChar nl (trim tabularTextA))))
   \<and> (\<exists>w. GET (Response 200 tabularTextA) Rejected = Inr w
        \<and> windDirection w \<noteq> NaN \<and> \<not> geq (windDirection w) 999
        \<and> windSpeed w \<noteq> NaN \<and> \<not> geq (windSpeed w) 99
        \<and> gustSpeed w \<noteq> NaN \<and> \<not> geq (gustSpeed w) 99
        \<and> geq (windDirection w) 0 \<and> geq (windSpeed w) 0 \<and> geq (gustSpeed w) 0
        \<and> (\<exists>r. windDirection w = Num r \<and> 0 \<le> r \<and> r < 360))"
proof -
  let ?parts = "splitWs (last (splitChar nl (trim tabularTextA)))"
  have n: "\<not> negative (parseFloat (part ?parts 5))" "\<not> negative (parseFloat (part ?parts 6))"
    "\<not> negative (parseFloat (part ?parts 7))"
    by code_simp+
  have q: "parseFloat (part ?parts 5) = Num 180 \<and> (0::rat) \<le> 180 \<and> (180::rat) < 360"
    by code_simp
  show ?thesis
    using n q tabularTextA_passes
      C2_tabular_ranges [OF tabularTextA_passes(1) refl tabularTextA_passes(2) refl
        tabularTextA_passes(3), of Rejected]
    by blast
qed

text \<open>
  C2 as stated fails: a direction column of 400 and negative speed columns are returned as
  they are read.
\<close>

theorem C2_counterexample:
  "GET (Response 200
          (tabularText ''2025 11 16 23 50 400 -4.1 -7.2 2.3 7 5 190 1015 18.0 16.5 10 10 MM''))
       Rejected
   = Inr \<lparr>datetime = ''2025-11-16T23:50:00Z'', windDirection = Num 400, windSpeed = Num (- 8),
          gustSpeed = Num (- 14), pressure = Num 1015, airTemp = toDouble (322 / 5),
          waterTemp = toDouble (617 / 10)\<rparr>"
  by (rule tabular_eval; code_simp)

subsection \<open>Where the tests for missing values are made (C3)\<close>

text \<open>
  C3, as the code has it. On the tabular path the tests for missing values are made on the
  converted values: a speed that is at least 99 after the conversion to knots becomes 0, and
  a temperature that is at least 999 after the conversion to Fahrenheit becomes 0. Since
  the conversions only increase such values, a speed column of at least 99 m/s gives 0
  knots and a temperature column of at least 999 degrees Celsius gives 0 Fahrenheit; but so
  does every smaller reading whose converted value reaches the bound.
\<close>

theorem C3_sentinels_after_conversion:
  assumes "ok status"
    and "lines = splitChar nl (trim body)" and "1 < length lines"
    and "parts = splitWs (last lines)" and "13 \<le> length parts"
  shows "\<exists>w. GET (Response status body) readable = Inr w
     \<and> (geq (parseFloat (part parts 6)) 99 \<longrightarrow> windSpeed w = Num 0)
     \<and> (geq (parseFloat (part parts 7)) 99 \<longrightarrow> gustSpeed w = Num 0)
     \<and> (geq (parseFloat (part parts 13)) 999 \<longrightarrow> airTemp w = Num 0)
     \<and> (geq (parseFloat (part parts 14)) 999 \<longrightarrow> waterTemp w = Num 0)
     \<and> windSpeed w = (if geq (toKnots (parseFloat (part parts 6))) 99 then Num 0
                       else orElse (toKnots (parseFloat (part parts 6))) (Num 0))
     \<and> gustSpeed w = (if geq (toKnots (parseFloat (part parts 7))) 99 then Num 0
                       else orElse (toKnots (parseFloat (part parts 7))) (Num 0))
     \<and> airTemp w = (if truthy (parseFloat (part parts 13))
                        \<and> \<not> geq (toFahrenheit (parseFloat (part parts 13))) 999
                     then toFahrenheit (parseFloat (part parts 13)) else Num 0)
     \<and> waterTemp w = (if truthy (parseFloat (part parts 14))
                          \<and> \<not> geq (toFahrenheit (parseFloat (part parts 14))) 999
                       then toFahrenheit (parseFloat (part parts 14)) else Num 0)"
proof -
  obtain w where w: "GET (Response status body) readable = Inr w"
    and f: "windSpeed w = knotsOut (parseFloat (part parts 6))"
      "gustSpeed w = knotsOut (parseFloat (part parts 7))"
      "airTemp w = fahrenheitOut (parseFloat (part parts 13))"
      "waterTemp w = fahrenheitOut (parseFloat (part parts 14))"
    using tabular_fields [OF assms] by blast
  show ?thesis
    apply (rule exI [of _ w])
    unfolding f
    by (intro conjI impI;
        (rule w knotsOut_eq fahrenheitOut_eq | erule knotsOut_sentinel
          | erule fahrenheitOut_sentinel))
qed

theorem C3_sentinels_after_conversion_witness:
  "ok 200 \<and> 1 < length (splitChar nl (trim tabularTextMissing))
   \<and> 13 \<le> length (splitWs (last (splitChar nl (trim tabularTextMissing))))
   \<and> geq (parseFloat (part (splitWs (last (splitChar nl (trim tabularTextMissing)))) 6)) 99
   \<and> geq (parseFloat (part (splitWs (last (splitChar nl (trim tabularTextMissing)))) 13)) 999
   \<and> (\<exists>w. GET (Response 200 tabularTextMissing) Rejected = Inr w
        \<and> windSpeed w = Num 0 \<and> gustSpeed w = Num 0
        \<and> airTemp w = Num 0 \<and> waterTemp w = Num 0)"
proof -
  let ?parts = "splitWs (last (splitChar nl (trim tabularTextMissing)))"
  have s: "geq (parseFloat (part ?parts 6)) 99" "geq (parseFloat (part ?parts 7)) 99"
    "geq (parseFloat (part ?parts 13)) 999" "geq (parseFloat (part ?parts 14)) 999"
    by code_simp+
  show ?thesis
    using s tabularTextA_passes(1) tabularTextMissing_passes
      C3_sentinels_after_conversion [OF tabularTextA_passes(1) refl
        tabularTextMissing_passes(1) refl tabularTextMissing_passes(2), of Rejected]
    by blast
qed

text \<open>
  C3 as stated fails: a wind-speed column of 60 m/s and an air-temperature column of
  600 degrees Celsius are below the markers 99 and 999, and both come out as 0, because
  116.6 knots and 1112 degrees Fahrenheit are not.
\<close>

theorem C3_counterexample:
  "parseFloat ''60'' = Num 60 \<and> \<not> geq (Num 60) 99 \<and> toKnots (Num 60) = toDouble (583 / 5)
   \<and> parseFloat ''600.0'' = Num 600 \<and> \<not> geq (Num 600) 999
   \<and> toFahrenheit (Num 600) = Num 1112
   \<and> GET (Response 200
          (tabularText ''2025 11 16 23 50 180 60 7.2 2.3 7 5 190 1015 600.0 16.5 10 10 MM''))
       Rejected
     = Inr \<lparr>datetime = ''2025-11-16T23:50:00Z'', windDirection = Num 180, windSpeed = Num 0,
            gustSpeed = Num 14, pressure = Num 1015, airTemp = Num 0,
            waterTemp = toDouble (617 / 10)\<rparr>"
proof -
  have "parseFloat ''60'' = Num 60" "\<not> geq (Num 60) 99" "toKnots (Num 60) = toDouble (583 / 5)"
    "parseFloat ''600.0'' = Num 600" "\<not> geq (Num 600) 999"
    "toFahrenheit (Num 600) = Num 1112"
    by code_simp+
  moreover have "GET (Response 200
          (tabularText ''2025 11 16 23 50 180 60 7.2 2.3 7 5 190 1015 600.0 16.5 10 10 MM''))
       Rejected
     = Inr \<lparr>datetime = ''2025-11-16T23:50:00Z'', windDirection = Num 180, windSpeed = Num 0,
            gustSpeed = Num 14, pressure = Num 1015, airTemp = Num 0,
            waterTemp = toDouble (617 / 10)\<rparr>"
    by (rule tabular_eval; code_simp)
  ultimately show ?thesis by (intro conjI)
qed

subsection \<open>The missing time line (C4)\<close>

text \<open>
  C4, as the code has it. On the path of the human-readable text, with at least two lines,
  the handler fails with \<^verbatim>\<open>Could not parse date/time from NOAA data\<close> if and only if no
  line contains \<open>GMT\<close> or the first line that contains \<open>GMT\<close> does not match the pattern
  \<open>HHMM GMT MM/DD/YY\<close>. Only that first line is tried: a later line that matches does not
  help. In every other case a record with a composed time stamp is returned.
\<close>

theorem C4_missing_timestamp:
  assumes "probeTabular t = None" and "ok st"
    and "lines = splitChar nl (trim text)" and "2 \<le> length lines"
  shows "(GET t (Response st text) = Inl NoDateTime \<longleftrightarrow>
            (case List.find (\<lambda>line. includesStr line ''GMT'') lines of
               None \<Rightarrow> True
             | Some gmtLine \<Rightarrow> \<not> gmtPattern gmtLine))
         \<and> (GET t (Response st text) \<noteq> Inl NoDateTime \<longrightarrow>
              (\<exists>w. GET t (Response st text) = Inr w \<and> datetime w \<noteq> []))"
proof -
  have "text \<noteq> []"
    using assms(3,4) by (auto simp: trim_def)
  then have "GET t (Response st text) = parseReadable lines"
    using assms by (simp add: GET_readable readablePath_def parseRaw_def Let_def)
  then show ?thesis
    using extractDateTime_empty_iff [of lines] by (simp add: parseReadable_def Let_def)
qed

theorem C4_missing_timestamp_witness:
  "probeTabular Rejected = None \<and> ok 200 \<and> 2 \<le> length (splitChar nl (trim readableText))
   \<and> List.find (\<lambda>line. includesStr line ''GMT'') (splitChar nl (trim readableText))
       = Some ''2348 GMT 11/16/25''
   \<and> gmtPattern ''2348 GMT 11/16/25''
   \<and> GET Rejected (Response 200 readableText) \<noteq> Inl NoDateTime"
proof -
  have h: "probeTabular Rejected = None" "ok 200"
    "2 \<le> length (splitChar nl (trim readableText))"
    by code_simp+
  have f: "List.find (\<lambda>line. includesStr line ''GMT'') (splitChar nl (trim readableText))
       = Some ''2348 GMT 11/16/25''"
    by code_simp
  have p: "gmtPattern ''2348 GMT 11/16/25''"
    by (rule gmtPattern_exec) code_simp
  show ?thesis
    using h f p C4_missing_timestamp [OF h(1,2) refl h(3)] by simp
qed

text \<open>
  C4 as stated fails: the second line of the text below matches the pattern, the first
  line contains \<open>GMT\<close> without matching it, and the handler fails for want of a time.
\<close>

theorem C4_counterexample:
  "splitChar nl (trim shadowedText)
     = [''Time zone: GMT'', ''2348 GMT 11/16/25'', windLineB, ''Gust: 14.0 kt'']
   \<and> gmtPattern ''2348 GMT 11/16/25''
   \<and> GET Rejected (Response 200 shadowedText) = Inl NoDateTime"
proof -
  have "gmtPattern ''2348 GMT 11/16/25''"
    by (rule gmtPattern_exec) code_simp
  moreover have "splitChar nl (trim shadowedText)
     = [''Time zone: GMT'', ''2348 GMT 11/16/25'', windLineB, ''Gust: 14.0 kt'']"
    "GET Rejected (Response 200 shadowedText) = Inl NoDateTime"
    by code_simp+
  ultimately show ?thesis by (intro conjI)
qed

subsection \<open>Celsius to Fahrenheit (C5)\<close>

text \<open>
  C5, as the code has it. On the tabular path, when the air- or water-temperature column
  reads as a number \<open>c\<close> other than zero, of magnitude at most 1000, and the value converted
  by the code is below 999, the field of the record is the double nearest to \<open>n / 10\<close> for an
  integer \<open>n\<close> that is within \<open>1/2 + 10\<^sup>-\<^sup>1\<^sup>0\<close> of \<open>(c \<times> 9/5 + 32) \<times> 10\<close>; and when
  \<open>(c \<times> 9/5 + 32) \<times> 10\<close> is farther than \<open>10\<^sup>-\<^sup>1\<^sup>0\<close> from every half-integer, the field is the
  double nearest to \<open>round(c \<times> 9/5 + 32, 1)\<close>. (A converted value of 999 or more is replaced
  by 0 by the test for missing values; what a column that reads as zero gives is not part
  of this statement.)
\<close>

theorem C5_fahrenheit_conversion:
  assumes "ok status"
    and "lines = splitChar nl (trim body)" and "1 < length lines"
    and "parts = splitWs (last lines)" and "13 \<le> length parts"
  shows "\<exists>w. GET (Response status body) readable = Inr w
     \<and> (\<forall>c. parseFloat (part parts 13) = Num c \<and> c \<noteq> 0 \<and> \<bar>c\<bar> \<le> 1000
              \<and> \<not> geq (toFahrenheit (Num c)) 999
            \<longrightarrow> (\<exists>n. airTemp w = toDouble (of_int n / 10)
                   \<and> \<bar>of_int n - (c * 9 / 5 + 32) * 10\<bar> \<le> 1 / 2 + 1 / 10 ^ 10
                   \<and> ((\<forall>k::int. 1 / 10 ^ 10 < \<bar>(c * 9 / 5 + 32) * 10 - (of_int k + 1 / 2)\<bar>)
                        \<longrightarrow> airTemp w = toDouble (specFahrenheit c))))
     \<and> (\<forall>c. parseFloat (part parts 14) = Num c \<and> c \<noteq> 0 \<and> \<bar>c\<bar> \<le> 1000
              \<and> \<not> geq (toFahrenheit (Num c)) 999
            \<longrightarrow> (\<exists>n. waterTemp w = toDouble (of_int n / 10)
                   \<and> \<bar>of_int n - (c * 9 / 5 + 32) * 10\<bar> \<le> 1 / 2 + 1 / 10 ^ 10
                   \<and> ((\<forall>k::int. 1 / 10 ^ 10 < \<bar>(c * 9 / 5 + 32) * 10 - (of_int k + 1 / 2)\<bar>)
                        \<longrightarrow> waterTemp w = toDouble (specFahrenheit c))))"
proof -
  obtain w where w: "GET (Response status body) readable = Inr w"
    and f: "airTemp w = fahrenheitOut (parseFloat (part parts 13))"
      "waterTemp w = fahrenheitOut (parseFloat (part parts 14))"
    using tabular_fields [OF assms] by blast
  have air: "\<exists>n. airTemp w = toDouble (of_int n / 10)
      \<and> \<bar>of_int n - (c * 9 / 5 + 32) * 10\<bar> \<le> 1 / 2 + 1 / 10 ^ 10
      \<and> ((\<forall>k::int. 1 / 10 ^ 10 < \<bar>(c * 9 / 5 + 32) * 10 - (of_int k + 1 / 2)\<bar>)
           \<longrightarrow> airTemp w = toDouble (specFahrenheit c))"
    if "parseFloat (part parts 13) = Num c \<and> c \<noteq> 0 \<and> \<bar>c\<bar> \<le> 1000
      \<and> \<not> geq (toFahrenheit (Num c)) 999" for c
  proof -
    from that have p: "parseFloat (part parts 13) = Num c"
      and z: "c \<noteq> 0" and b: "\<bar>c\<bar> \<le> 1000" and g: "\<not> geq (toFahrenheit (Num c)) 999"
      by simp_all
    show ?thesis
      unfolding f p by (rule fahrenheitOut_Num [OF z b g])
  qed
  have water: "\<exists>n. waterTemp w = toDouble (of_int n / 10)
      \<and> \<bar>of_int n - (c * 9 / 5 + 32) * 10\<bar> \<le> 1 / 2 + 1 / 10 ^ 10
      \<and> ((\<forall>k::int. 1 / 10 ^ 10 < \<bar>(c * 9 / 5 + 32) * 10 - (of_int k + 1 / 2)\<bar>)
           \<longrightarrow> waterTemp w = toDouble (specFahrenheit c))"
    if "parseFloat (part parts 14) = Num c \<and> c \<noteq> 0 \<and> \<bar>c\<bar> \<le> 1000
      \<and> \<not> geq (toFahrenheit (Num c)) 999" for c
  proof -
    from that have p: "parseFloat (part parts 14) = Num c"
      and z: "c \<noteq> 0" and b: "\<bar>c\<bar> \<le> 1000" and g: "\<not> geq (toFahrenheit (Num c)) 999"
      by simp_all
    show ?thesis
      unfolding f p by (rule fahrenheitOut_Num [OF z b g])
  qed
  from w air water show ?thesis
    by blast
qed

theorem C5_fahrenheit_conversion_witness:
  "ok 200 \<and> 1 < length (splitChar nl (trim tabularTextA))
   \<and> 13 \<le> length (splitWs (last (splitChar nl (trim tabularTextA))))
   \<and> parseFloat (part (splitWs (last (splitChar nl (trim tabularTextA)))) 13) = Num 18
   \<and> parseFloat (part (splitWs (last (splitChar nl (trim tabularTextA)))) 14) = Num (33 / 2)
   \<and> \<not> geq (toFahrenheit (Num 18)) 999 \<and> \<not> geq (toFahrenheit (Num (33 / 2))) 999
   \<and> (\<exists>w. GET (Response 200 tabularTextA) Rejected = Inr w
        \<and> airTemp w = toDouble (322 / 5) \<and> waterTemp w = toDouble (617 / 10))"
proof -
  let ?parts = "splitWs (last (splitChar nl (trim tabularTextA)))"
  have a: "parseFloat (part ?parts 13) = Num 18" "parseFloat (part ?parts 14) = Num (33 / 2)"
    by code_simp+
  have s: "(18::rat) \<noteq> 0" "\<bar>18::rat\<bar> \<le> 1000" "\<not> geq (toFahrenheit (Num 18)) 999"
    "(33 / 2 :: rat) \<noteq> 0" "\<bar>33 / 2 :: rat\<bar> \<le> 1000" "\<not> geq (toFahrenheit (Num (33 / 2))) 999"
    by code_simp+
  have v: "specFahrenheit 18 = 322 / 5" "specFahrenheit (33 / 2) = 617 / 10"
    by code_simp+
  have t: "\<forall>k::int. 1 / 10 ^ 10 < \<bar>(18 * 9 / 5 + 32) * 10 - (of_int k + 1 / 2 :: rat)\<bar>"
    "\<forall>k::int. 1 / 10 ^ 10 < \<bar>(33 / 2 * 9 / 5 + 32) * 10 - (of_int k + 1 / 2 :: rat)\<bar>"
    by (rule half_integers_far [of 643], simp, simp)
      (rule half_integers_far [of 616], simp, simp)
  obtain w where w: "GET (Response 200 tabularTextA) Rejected = Inr w"
    and air: "\<forall>c. parseFloat (part ?parts 13) = Num c \<and> c \<noteq> 0 \<and> \<bar>c\<bar> \<le> 1000
              \<and> \<not> geq (toFahrenheit (Num c)) 999
            \<longrightarrow> (\<exists>n. airTemp w = toDouble (of_int n / 10)
                   \<and> \<bar>of_int n - (c * 9 / 5 + 32) * 10\<bar> \<le> 1 / 2 + 1 / 10 ^ 10
                   \<and> ((\<forall>k::int. 1 / 10 ^ 10 < \<bar>(c * 9 / 5 + 32) * 10 - (of_int k + 1 / 2)\<bar>)
                        \<longrightarrow> airTemp w = toDouble (specFahrenheit c)))"
    and water: "\<forall>c. parseFloat (part ?parts 14) = Num c \<and> c \<noteq> 0 \<and> \<bar>c\<bar> \<le> 1000
              \<and> \<not> geq (toFahrenheit (Num c)) 999
            \<longrightarrow> (\<exists>n. waterTemp w = toDouble (of_int n / 10)
                   \<and> \<bar>of_int n - (c * 9 / 5 + 32) * 10\<bar> \<le> 1 / 2 + 1 / 10 ^ 10
                   \<and> ((\<forall>k::int. 1 / 10 ^ 10 < \<bar>(c * 9 / 5 + 32) * 10 - (of_int k + 1 / 2)\<bar>)
                        \<longrightarrow> waterTemp w = toDouble (specFahrenheit c)))"
    using C5_fahrenheit_conversion [OF tabularTextA_passes(1) refl tabularTextA_passes(2) refl
        tabularTextA_passes(3), of Rejected]
    by blast
  from air a(1) s(1-3) t(1) have "airTemp w = toDouble (specFahrenheit 18)"
    by blast
  moreover from water a(2) s(4-6) t(2) have "waterTemp w = toDouble (specFahrenheit (33 / 2))"
    by blast
  ultimately have "airTemp w = toDouble (322 / 5)" "waterTemp w = toDouble (617 / 10)"
    by (simp_all only: v)
  with w a s(3,6) tabularTextA_passes show ?thesis
    by blast
qed

text \<open>
  C5 as stated fails: a water-temperature column of 600.0 is below the marker 999 of the
  specification, its conversion is 1112.0, and the field of the record is 0.
\<close>

theorem C5_counterexample:
  "parseFloat ''600.0'' = Num 600 \<and> (600::rat) < 999 \<and> specFahrenheit 600 = 1112
   \<and> GET (Response 200
          (tabularText ''2025 11 16 23 50 180 4.1 7.2 2.3 7 5 190 1015 18.0 600.0 10 10 MM''))
       Rejected
     = Inr \<lparr>datetime = ''2025-11-16T23:50:00Z'', windDirection = Num 180, windSpeed = Num 8,
            gustSpeed = Num 14, pressure = Num 1015, airTemp = toDouble (322 / 5),
            waterTemp = Num 0\<rparr>"
proof -
  have "parseFloat ''600.0'' = Num 600" "(600::rat) < 999" "specFahrenheit 600 = 1112"
    by code_simp+
  moreover have "GET (Response 200
          (tabularText ''2025 11 16 23 50 180 4.1 7.2 2.3 7 5 190 1015 18.0 600.0 10 10 MM''))
       Rejected
     = Inr \<lparr>datetime = ''2025-11-16T23:50:00Z'', windDirection = Num 180, windSpeed = Num 8,
            gustSpeed = Num 14, pressure = Num 1015, airTemp = toDouble (322 / 5),
            waterTemp = Num 0\<rparr>"
    by (rule tabular_eval; code_simp)
  ultimately show ?thesis by (intro conjI)
qed

text \<open>
  A column that reads as zero: the test \<^verbatim>\<open>parseFloat(parts[13]) ? ... : 0\<close> takes the
  number 0 for a missing value, so an air temperature of 0.0 degrees Celsius gives the
  field 0 and not 32.
\<close>

lemma zero_celsius_is_read_as_missing:
  "parseFloat ''0.0'' = Num 0 \<and> specFahrenheit 0 = 32
   \<and> GET (Response 200
          (tabularText ''2025 11 16 23 50 180 4.1 7.2 2.3 7 5 190 1015 0.0 16.5 10 10 MM''))
       Rejected
     = Inr \<lparr>datetime = ''2025-11-16T23:50:00Z'', windDirection = Num 180, windSpeed = Num 8,
            gustSpeed = Num 14, pressure = Num 1015, airTemp = Num 0,
            waterTemp = toDouble (617 / 10)\<rparr>"
proof -
  have "parseFloat ''0.0'' = Num 0" "specFahrenheit 0 = 32"
    by code_simp+
  moreover have "GET (Response 200
          (tabularText ''2025 11 16 23 50 180 4.1 7.2 2.3 7 5 190 1015 0.0 16.5 10 10 MM''))
       Rejected
     = Inr \<lparr>datetime = ''2025-11-16T23:50:00Z'', windDirection = Num 180, windSpeed = Num 8,
            gustSpeed = Num 14, pressure = Num 1015, airTemp = Num 0,
            waterTemp = toDouble (617 / 10)\<rparr>"
    by (rule tabular_eval; code_simp)
  ultimately show ?thesis by (intro conjI)
qed

text \<open>
  A value next to a tie: at -30.25 degrees Celsius the exact conversion is -22.45, which
  rounds to -22.4 with a tie going up; the doubles of the code give -224.50000000000003
  before \<^verbatim>\<open>Math.round\<close>, and the field is -22.5.
\<close>

lemma celsius_next_to_a_tie:
  "parseFloat ''-30.25'' = Num (- (121 / 4)) \<and> specFahrenheit (- (121 / 4)) = - (112 / 5)
   \<and> GET (Response 200
          (tabularText ''2025 11 16 23 50 180 4.1 7.2 2.3 7 5 190 1015 -30.25 16.5 10 10 MM''))
       Rejected
     = Inr \<lparr>datetime = ''2025-11-16T23:50:00Z'', windDirection = Num 180, windSpeed = Num 8,
            gustSpeed = Num 14, pressure = Num 1015, airTemp = Num (- (45 / 2)),
            waterTemp = toDouble (617 / 10)\<rparr>"
proof -
  have "parseFloat ''-30.25'' = Num (- (121 / 4))" "specFahrenheit (- (121 / 4)) = - (112 / 5)"
    by code_simp+
  moreover have "GET (Response 200
          (tabularText ''2025 11 16 23 50 180 4.1 7.2 2.3 7 5 190 1015 -30.25 16.5 10 10 MM''))
       Rejected
     = Inr \<lparr>datetime = ''2025-11-16T23:50:00Z'', windDirection = Num 180, windSpeed = Num 8,
            gustSpeed = Num 14, pressure = Num 1015, airTemp = Num (- (45 / 2)),
            waterTemp = toDouble (617 / 10)\<rparr>"
    by (rule tabular_eval; code_simp)
  ultimately show ?thesis by (intro conjI)
qed

subsection \<open>Metres per second to knots (C6)\<close>

text \<open>
  C6, as the code has it. On the tabular path, when the wind-speed or gust column reads as
  a number \<open>v\<close> of magnitude at most 1000 and the value converted by the code is below 99,
  the field of the record is the double nearest to \<open>n / 10\<close> for an integer \<open>n\<close> that is
  within \<open>1/2 + 10\<^sup>-\<^sup>1\<^sup>0\<close> of \<open>v \<times> 19.44\<close>; and when \<open>v \<times> 19.44\<close> is farther than \<open>10\<^sup>-\<^sup>1\<^sup>0\<close>
  from every half-integer, the field is the double nearest to \<open>round(v \<times> 1.944, 1)\<close>: the
  factor of the code is 1.944. In particular 4.1 m/s gives 8.0 knots.
\<close>

theorem C6_knots_conversion:
  assumes "ok status"
    and "lines = splitChar nl (trim body)" and "1 < length lines"
    and "parts = splitWs (last lines)" and "13 \<le> length parts"
  shows "\<exists>w. GET (Response status body) readable = Inr w
     \<and> (\<forall>v. parseFloat (part parts 6) = Num v \<and> \<bar>v\<bar> \<le> 1000
              \<and> \<not> geq (toKnots (Num v)) 99
            \<longrightarrow> (\<exists>n. windSpeed w = toDouble (of_int n / 10)
                   \<and> \<bar>of_int n - v * (1944 / 100)\<bar> \<le> 1 / 2 + 1 / 10 ^ 10
                   \<and> ((\<forall>k::int. 1 / 10 ^ 10 < \<bar>v * (1944 / 100) - (of_int k + 1 / 2)\<bar>)
                        \<longrightarrow> windSpeed w = toDouble (specRound1 (v * (1944 / 1000))))))
     \<and> (\<forall>v. parseFloat (part parts 7) = Num v \<and> \<bar>v\<bar> \<le> 1000
              \<and> \<not> geq (toKnots (Num v)) 99
            \<longrightarrow> (\<exists>n. gustSpeed w = toDouble (of_int n / 10)
                   \<and> \<bar>of_int n - v * (1944 / 100)\<bar> \<le> 1 / 2 + 1 / 10 ^ 10
                   \<and> ((\<forall>k::int. 1 / 10 ^ 10 < \<bar>v * (1944 / 100) - (of_int k + 1 / 2)\<bar>)
                        \<longrightarrow> gustSpeed w = toDouble (specRound1 (v * (1944 / 1000))))))"
proof -
  obtain w where w: "GET (Response status body) readable = Inr w"
    and f: "windSpeed w = knotsOut (parseFloat (part parts 6))"
      "gustSpeed w = knotsOut (parseFloat (part parts 7))"
    using tabular_fields [OF assms] by blast
  have wind: "\<exists>n. windSpeed w = toDouble (of_int n / 10)
      \<and> \<bar>of_int n - v * (1944 / 100)\<bar> \<le> 1 / 2 + 1 / 10 ^ 10
      \<and> ((\<forall>k::int. 1 / 10 ^ 10 < \<bar>v * (1944 / 100) - (of_int k + 1 / 2)\<bar>)
           \<longrightarrow> windSpeed w = toDouble (specRound1 (v * (1944 / 1000))))"
    if "parseFloat (part parts 6) = Num v \<and> \<bar>v\<bar> \<le> 1000 \<and> \<not> geq (toKnots (Num v)) 99" for v
  proof -
    from that have p: "parseFloat (part parts 6) = Num v"
      and b: "\<bar>v\<bar> \<le> 1000" and g: "\<not> geq (toKnots (Num v)) 99"
      by simp_all
    show ?thesis
      unfolding f p by (rule knotsOut_Num [OF b g])
  qed
  have gust: "\<exists>n. gustSpeed w = toDouble (of_int n / 10)
      \<and> \<bar>of_int n - v * (1944 / 100)\<bar> \<le> 1 / 2 + 1 / 10 ^ 10
      \<and> ((\<forall>k::int. 1 / 10 ^ 10 < \<bar>v * (1944 / 100) - (of_int k + 1 / 2)\<bar>)
           \<longrightarrow> gustSpeed w = toDouble (specRound1 (v * (1944 / 1000))))"
    if "parseFloat (part parts 7) = Num v \<and> \<bar>v\<bar> \<le> 1000 \<and> \<not> geq (toKnots (Num v)) 99" for v
  proof -
    from that have p: "parseFloat (part parts 7) = Num v"
      and b: "\<bar>v\<bar> \<le> 1000" and g: "\<not> geq (toKnots (Num v)) 99"
      by simp_all
    show ?thesis
      unfolding f p by (rule knotsOut_Num [OF b g])
  qed
  from w wind gust show ?thesis
    by blast
qed

theorem C6_knots_conversion_witness:
  "ok 200 \<and> 1 < length (splitChar nl (trim tabularTextA))
   \<and> 13 \<le> length (splitWs (last (splitChar nl (trim tabularTextA))))
   \<and> parseFloat (part (splitWs (last (splitChar nl (trim tabularTextA)))) 6)
       = toDouble (41 / 10)
   \<and> toDouble (41 / 10) = Num (2308094809027379 / 562949953421312)
   \<and> \<not> geq (toKnots (toDouble (41 / 10))) 99
   \<and> (\<exists>w. GET (Response 200 tabularTextA) Rejected = Inr w \<and> windSpeed w = Num 8)"
proof -
  let ?parts = "splitWs (last (splitChar nl (trim tabularTextA)))"
  let ?v = "2308094809027379 / 562949953421312 :: rat"
  have a: "parseFloat (part ?parts 6) = toDouble (41 / 10)"
    by code_simp
  have d: "toDouble (41 / 10) = Num ?v"
    by code_simp
  have s: "\<bar>?v\<bar> \<le> 1000" "\<not> geq (toKnots (Num ?v)) 99"
    by code_simp+
  have v: "toDouble (specRound1 (?v * (1944 / 1000))) = Num 8"
    by code_simp
  have t: "\<forall>k::int. 1 / 10 ^ 10 < \<bar>?v * (1944 / 100) - (of_int k + 1 / 2)\<bar>"
    by (rule half_integers_far [of 79]) simp_all
  obtain w where w: "GET (Response 200 tabularTextA) Rejected = Inr w"
    and wind: "\<forall>v. parseFloat (part ?parts 6) = Num v \<and> \<bar>v\<bar> \<le> 1000
              \<and> \<not> geq (toKnots (Num v)) 99
            \<longrightarrow> (\<exists>n. windSpeed w = toDouble (of_int n / 10)
                   \<and> \<bar>of_int n - v * (1944 / 100)\<bar> \<le> 1 / 2 + 1 / 10 ^ 10
                   \<and> ((\<forall>k::int. 1 / 10 ^ 10 < \<bar>v * (1944 / 100) - (of_int k + 1 / 2)\<bar>)
                        \<longrightarrow> windSpeed w = toDouble (specRound1 (v * (1944 / 1000)))))"
    using C6_knots_conversion [OF tabularTextA_passes(1) refl tabularTextA_passes(2) refl
        tabularTextA_passes(3), of Rejected]
    by blast
  from a d have "parseFloat (part ?parts 6) = Num ?v"
    by (simp only:)
  with wind s t have "windSpeed w = toDouble (specRound1 (?v * (1944 / 1000)))"
    by blast
  then have "windSpeed w = Num 8"
    by (simp only: v)
  moreover have "\<not> geq (toKnots (toDouble (41 / 10))) 99"
    unfolding d by (rule s(2))
  ultimately show ?thesis
    using w a d tabularTextA_passes by blast
qed

text \<open>
  C6 as stated fails: 38.3 m/s gives 74.5 knots, and the formula of the specification,
  with the factor 1.943844, gives 74.4.
\<close>

theorem C6_counterexample:
  "parseFloat ''38.3'' = toDouble (383 / 10) \<and> specKnots (383 / 10) = 372 / 5
   \<and> toDouble (372 / 5) \<noteq> Num (149 / 2)
   \<and> GET (Response 200
          (tabularText ''2025 11 16 23 50 180 38.3 7.2 2.3 7 5 190 1015 18.0 16.5 10 10 MM''))
       Rejected
     = Inr \<lparr>datetime = ''2025-11-16T23:50:00Z'', windDirection = Num 180,
            windSpeed = Num (149 / 2), gustSpeed = Num 14, pressure = Num 1015,
            airTemp = toDouble (322 / 5), waterTemp = toDouble (617 / 10)\<rparr>"
proof -
  have "parseFloat ''38.3'' = toDouble (383 / 10)" "specKnots (383 / 10) = 372 / 5"
    "toDouble (372 / 5) \<noteq> Num (149 / 2)"
    by code_simp+
  moreover have "GET (Response 200
          (tabularText ''2025 11 16 23 50 180 38.3 7.2 2.3 7 5 190 1015 18.0 16.5 10 10 MM''))
       Rejected
     = Inr \<lparr>datetime = ''2025-11-16T23:50:00Z'', windDirection = Num 180,
            windSpeed = Num (149 / 2), gustSpeed = Num 14, pressure = Num 1015,
            airTemp = toDouble (322 / 5), waterTemp = toDouble (617 / 10)\<rparr>"
    by (rule tabular_eval; code_simp)
  ultimately show ?thesis by (intro conjI)
qed

text \<open>
  A value at a tie: 18.75 m/s times 1.944 is 36.45 exactly, which rounds to 36.5 with a tie
  going up; the doubles of the code give 364.49999999999994 before \<^verbatim>\<open>Math.round\<close>, and the
  field is the double nearest to 36.4.
\<close>

lemma speed_at_a_tie:
  "parseFloat ''18.75'' = Num (75 / 4) \<and> specRound1 (75 / 4 * (1944 / 1000)) = 73 / 2
   \<and> toDouble (73 / 2) \<noteq> toDouble (182 / 5)
   \<and> GET (Response 200
          (tabularText ''2025 11 16 23 50 180 18.75 7.2 2.3 7 5 190 1015 18.0 16.5 10 10 MM''))
       Rejected
     = Inr \<lparr>datetime = ''2025-11-16T23:50:00Z'', windDirection = Num 180,
            windSpeed = toDouble (182 / 5), gustSpeed = Num 14, pressure = Num 1015,
            airTemp = toDouble (322 / 5), waterTemp = toDouble (617 / 10)\<rparr>"
proof -
  have "parseFloat ''18.75'' = Num (75 / 4)" "specRound1 (75 / 4 * (1944 / 1000)) = 73 / 2"
    "toDouble (73 / 2) \<noteq> toDouble (182 / 5)"
    by code_simp+
  moreover have "GET (Response 200
          (tabularText ''2025 11 16 23 50 180 18.75 7.2 2.3 7 5 190 1015 18.0 16.5 10 10 MM''))
       Rejected
     = Inr \<lparr>datetime = ''2025-11-16T23:50:00Z'', windDirection = Num 180,
            windSpeed = toDouble (182 / 5), gustSpeed = Num 14, pressure = Num 1015,
            airTemp = toDouble (322 / 5), waterTemp = toDouble (617 / 10)\<rparr>"
    by (rule tabular_eval; code_simp)
  ultimately show ?thesis by (intro conjI)
qed

subsection \<open>The fallback at the probe (C7)\<close>




subsection \<open>The scenario of the human-readable text (C8)\<close>

text \<open>
  C8, as the code has it. When the tabular source is not usable and, in the human-readable
  text, the lines \<open>2348 GMT 11/16/25\<close>, \<open>Wind: S (180\<degree>), 8.0 kt\<close> and \<open>Gust: 14.0 kt\<close> are
  the first lines that contain \<open>GMT\<close>, \<open>Wind:\<close> and \<open>Gust:\<close>, the handler returns exactly
  the record with the time \<open>2025-11-16T23:48:00Z\<close>, direction 180, speed 8.0, gust 14.0, and
  0 for pressure and the two temperatures.
\<close>

theorem C8_readable_scenario:
  assumes "probeTabular t = None" and "ok st"
    and "lines = splitChar nl (trim text)"
    and "List.find (\<lambda>line. includesStr line ''GMT'') lines = Some ''2348 GMT 11/16/25''"
    and "List.find (\<lambda>line. includesStr line ''Wind:'') lines = Some windLineB"
    and "List.find (\<lambda>line. includesStr line ''Gust:'') lines = Some ''Gust: 14.0 kt''"
  shows "GET t (Response st text) = Inr recordB"
proof -
  have "''2348 GMT 11/16/25'' \<noteq> windLineB"
    by code_simp
  with find_member [OF assms(4)] find_member [OF assms(5)] have "2 \<le> length lines"
    by (rule two_members)
  then have "GET t (Response st text) = parseReadable lines"
    using assms(1-3) by (simp add: GET_parseReadable)
  moreover have "extractDateTime lines = ''2025-11-16T23:48:00Z''"
    unfolding extractDateTime_def assms(4) by code_simp
  moreover have "extractWindDirection lines = Num 180"
    unfolding extractWindDirection_def assms(5) by code_simp
  moreover have "extractWindSpeed lines = Num 8"
    unfolding extractWindSpeed_def assms(5) by code_simp
  moreover have "extractGustSpeed lines = Num 14"
    unfolding extractGustSpeed_def assms(6) by code_simp
  ultimately show ?thesis
    by (simp add: parseReadable_def Let_def recordB_def)
qed

theorem C8_readable_scenario_witness:
  "probeTabular Rejected = None \<and> ok 200
   \<and> splitChar nl (trim readableText) = [''2348 GMT 11/16/25'', windLineB, ''Gust: 14.0 kt'']
   \<and> GET Rejected (Response 200 readableText) = Inr recordB"
proof -
  have h: "probeTabular Rejected = None" "ok 200"
    by code_simp+
  have l: "splitChar nl (trim readableText) = [''2348 GMT 11/16/25'', windLineB, ''Gust: 14.0 kt'']"
    by code_simp
  have f: "List.find (\<lambda>line. includesStr line ''GMT'') (splitChar nl (trim readableText))
        = Some ''2348 GMT 11/16/25''"
    "List.find (\<lambda>line. includesStr line ''Wind:'') (splitChar nl (trim readableText))
        = Some windLineB"
    "List.find (\<lambda>line. includesStr line ''Gust:'') (splitChar nl (trim readableText))
        = Some ''Gust: 14.0 kt''"
    by code_simp+
  show ?thesis
    using h l C8_readable_scenario [OF h refl f] by simp
qed

text \<open>
  C8 as stated fails: containing the three lines is not enough. In the text below the line
  \<open>Wind: calm\<close> comes before the wind line; the handler reads direction and speed from the
  first line that contains \<open>Wind:\<close>, and both come out as 0.
\<close>

theorem C8_counterexample:
  "splitChar nl (trim earlierWindText)
     = [''2348 GMT 11/16/25'', ''Wind: calm'', windLineB, ''Gust: 14.0 kt'']
   \<and> GET Rejected (Response 200 earlierWindText)
       = Inr \<lparr>datetime = ''2025-11-16T23:48:00Z'', windDirection = Num 0, windSpeed = Num 0,
              gustSpeed = Num 14, pressure = Num 0, airTemp = Num 0, waterTemp = Num 0\<rparr>
   \<and> GET Rejected (Response 200 earlierWindText) \<noteq> Inr recordB"
  by code_simp

subsection \<open>Direction and speed of the wind line (C9)\<close>




subsection \<open>At least two lines (C10)\<close>

text \<open>
  C10, as the code has it. A tabular text that is one line after trimming never passes the
  probe, whatever the number of its columns. Once a path is chosen, a text that is not
  empty and has fewer than two lines after trimming ends the handler with
  \<^verbatim>\<open>Not enough data lines. Expected at least 2, got 1\<close>, before any field is looked
  for: so does a human-readable text whose only line is a valid time line. (The empty
  text fails before the lines are counted.)
\<close>

theorem C10_two_lines_needed:
  "(length (splitChar nl (trim body)) < 2 \<longrightarrow> probeTabular (Response status body) = None)
   \<and> (rawData \<noteq> [] \<and> length (splitChar nl (trim rawData)) < 2
        \<longrightarrow> parseRaw isTabularFormat rawData = Inl (NotEnoughLines 1))
   \<and> (probeTabular t = None \<and> ok st \<and> text \<noteq> [] \<and> length (splitChar nl (trim text)) < 2
        \<longrightarrow> GET t (Response st text) = Inl (NotEnoughLines 1))
   \<and> parseRaw isTabularFormat [] = Inl NoData"
proof -
  have one: "length (splitChar nl s) < 2 \<Longrightarrow> length (splitChar nl s) = 1" for s
    using splitChar_nonempty [of nl s] by (cases "splitChar nl s") auto
  show ?thesis
    by (auto simp: probeTabular_def Let_def parseRaw_def GET_def readablePath_def dest: one)
qed

theorem C10_two_lines_needed_witness:
  "length (splitChar nl (trim dataLineA)) < 2 \<and> 10 < length (splitWs dataLineA)
   \<and> probeTabular (Response 200 dataLineA) = None
   \<and> rxExec gmtRx ''2348 GMT 11/16/25'' = Some [''2348'', ''11'', ''16'', ''25'']
   \<and> GET Rejected (Response 200 ''2348 GMT 11/16/25'') = Inl (NotEnoughLines 1)"
proof -
  have h: "length (splitChar nl (trim dataLineA)) < 2" "10 < length (splitWs dataLineA)"
    "rxExec gmtRx ''2348 GMT 11/16/25'' = Some [''2348'', ''11'', ''16'', ''25'']"
    "probeTabular Rejected = None" "ok 200" "''2348 GMT 11/16/25'' \<noteq> []"
    "length (splitChar nl (trim ''2348 GMT 11/16/25'')) < 2"
    by code_simp+
  show ?thesis
    using h C10_two_lines_needed [of dataLineA 200 "''2348 GMT 11/16/25''" False Rejected 200
        "''2348 GMT 11/16/25''"]
    by blast
qed

text \<open>
  C10 as stated fails for the empty text: it has fewer than two lines, and the error is
  \<^verbatim>\<open>Failed to read data from any source\<close>.
\<close>

theorem C10_counterexample:
  "length (splitChar nl (trim [])) < 2 \<and> GET Rejected (Response 200 []) = Inl NoData"
  by code_simp

end
